theory Spec2Isabelle
  imports Main "HOL-Library.Word"
begin

section \<open>The JWKS client: cache state, refresh and expiry\<close>

text \<open>
  A shallow embedding of \<^verbatim>\<open>client.go\<close>, \<^verbatim>\<open>headers.go\<close>, \<^verbatim>\<open>errors.go\<close> and the
  \<^verbatim>\<open>Config\<close> type. Every method of \<^verbatim>\<open>Client\<close> takes the client value and returns the
  updated one; the mutex, which only serialises the methods, and the debug logging are
  left out.
\<close>

subsection \<open>Time and durations\<close>

text \<open>
  A \<^verbatim>\<open>time.Duration\<close> is an \<^verbatim>\<open>int64\<close> count of nanoseconds: a 64-bit word read
  through \<open>sint\<close>, whose \<open>-\<close> wraps around as Go's does. A \<^verbatim>\<open>time.Time\<close> is an
  instant on one time line, counted in nanoseconds from the zero \<^verbatim>\<open>Time\<close>
  (\<^verbatim>\<open>time.Time{}\<close>); the range of \<^verbatim>\<open>Time\<close> exceeds that of \<^verbatim>\<open>Duration\<close> by far, so
  \<^verbatim>\<open>Add\<close> is exact, and \<^verbatim>\<open>Before\<close> and \<^verbatim>\<open>After\<close> are the strict order of the line.
\<close>

type_synonym Duration = "64 word"
type_synonym Time = int

definition Second :: Duration where
  "Second = 1000000000"

definition Minute :: Duration where
  "Minute = 60 * Second"

definition Hour :: Duration where
  "Hour = 60 * Minute"

definition zeroTime :: Time where
  "zeroTime = 0"

definition time_Add :: "Time \<Rightarrow> Duration \<Rightarrow> Time" where
  "time_Add t d = t + sint d"

definition time_Before :: "Time \<Rightarrow> Time \<Rightarrow> bool" where
  "time_Before t u = (t < u)"

definition time_After :: "Time \<Rightarrow> Time \<Rightarrow> bool" where
  "time_After t u = (u < t)"

definition time_IsZero :: "Time \<Rightarrow> bool" where
  "time_IsZero t = (t = 0)"

subsection \<open>Errors\<close>

text \<open>
  \<^verbatim>\<open>LibError\<close> is an error returned by a library (transport, body reader, JSON codec,
  \<^verbatim>\<open>time\<close> parsers) with its message; \<^verbatim>\<open>Wrapped p e\<close> is \<^verbatim>\<open>fmt.Errorf(p + ": %w", e)\<close>.
\<close>

datatype error =
    ErrKeysNotFetched
  | LibError string
  | Wrapped string error
  | URLRequired
  | UnexpectedStatus int
  | NegativeAge Duration Duration Duration
  | CacheHeadersNotPresent

subsection \<open>Configuration\<close>

record Config =
  URL :: string
  CacheMin :: Duration
  CacheMax :: Duration
  CacheErrors :: Duration
  ExitOnError :: bool
  KeepStaleKeys :: Duration

definition NewConfig :: Config where
  "NewConfig = \<lparr> URL = [], CacheMin = Minute, CacheMax = Hour, CacheErrors = 30 * Second,
     ExitOnError = False, KeepStaleKeys = 5 * Minute \<rparr>"

definition Validate :: "Config \<Rightarrow> error option" where
  "Validate c = (if URL c = [] then Some URLRequired else None)"

subsection \<open>The library functions the client calls\<close>

text \<open>
  Strings are byte strings. \<^verbatim>\<open>strings.Split\<close> is taken with a one-character separator,
  as the code calls it.
\<close>

fun strings_Split :: "string \<Rightarrow> char \<Rightarrow> string list" where
  "strings_Split [] sep = [[]]"
| "strings_Split (c # cs) sep =
     (if c = sep then [] # strings_Split cs sep
      else (case strings_Split cs sep of
              [] \<Rightarrow> [[c]]
            | p # ps \<Rightarrow> (c # p) # ps))"

text \<open>
  \<^verbatim>\<open>strings.TrimSpace\<close> removes the leading and the trailing white space, as
  \<^verbatim>\<open>unicode.IsSpace\<close> defines it, of a UTF-8 string: the six ASCII characters of the
  table \<^verbatim>\<open>asciiSpace\<close>, the two-byte encodings of U+0085 and U+00A0, and the three-byte
  encodings of U+1680, U+2000 to U+200A, U+2028, U+2029, U+202F, U+205F and U+3000. A
  byte that starts no such encoding decodes to a rune that is not white space and stops
  the trimming. \<^verbatim>\<open>trimRightSpace\<close> works on the reversed string, as the decoding from the
  end does.
\<close>

definition asciiSpace :: "char \<Rightarrow> bool" where
  "asciiSpace c = (c = CHR 0x09 \<or> c = CHR 0x0A \<or> c = CHR 0x0B \<or> c = CHR 0x0C
     \<or> c = CHR 0x0D \<or> c = CHR 0x20)"

definition spaceRune2 :: "char \<Rightarrow> char \<Rightarrow> bool" where
  "spaceRune2 a b = (a = CHR 0xC2 \<and> (b = CHR 0x85 \<or> b = CHR 0xA0))"

definition spaceRune3 :: "char \<Rightarrow> char \<Rightarrow> char \<Rightarrow> bool" where
  "spaceRune3 a b c =
     ((a = CHR 0xE1 \<and> b = CHR 0x9A \<and> c = CHR 0x80)
      \<or> (a = CHR 0xE2 \<and> b = CHR 0x80
          \<and> ((128 \<le> (of_char c :: nat) \<and> (of_char c :: nat) \<le> 138)
             \<or> c = CHR 0xA8 \<or> c = CHR 0xA9 \<or> c = CHR 0xAF))
      \<or> (a = CHR 0xE2 \<and> b = CHR 0x81 \<and> c = CHR 0x9F)
      \<or> (a = CHR 0xE3 \<and> b = CHR 0x80 \<and> c = CHR 0x80))"

fun trimLeftSpace :: "string \<Rightarrow> string" where
  "trimLeftSpace [] = []"
| "trimLeftSpace [a] = (if asciiSpace a then [] else [a])"
| "trimLeftSpace [a, b] =
     (if asciiSpace a then trimLeftSpace [b] else if spaceRune2 a b then [] else [a, b])"
| "trimLeftSpace (a # b # c # s) =
     (if asciiSpace a then trimLeftSpace (b # c # s)
      else if spaceRune2 a b then trimLeftSpace (c # s)
      else if spaceRune3 a b c then trimLeftSpace s
      else a # b # c # s)"

fun trimRightSpace :: "string \<Rightarrow> string" where
  "trimRightSpace [] = []"
| "trimRightSpace [c] = (if asciiSpace c then [] else [c])"
| "trimRightSpace [c, b] =
     (if asciiSpace c then trimRightSpace [b] else if spaceRune2 b c then [] else [c, b])"
| "trimRightSpace (c # b # a # r) =
     (if asciiSpace c then trimRightSpace (b # a # r)
      else if spaceRune2 b c then trimRightSpace (a # r)
      else if spaceRune3 a b c then trimRightSpace r
      else c # b # a # r)"

definition strings_TrimSpace :: "string \<Rightarrow> string" where
  "strings_TrimSpace s = rev (trimRightSpace (rev (trimLeftSpace s)))"

definition strings_HasPrefix :: "string \<Rightarrow> string \<Rightarrow> bool" where
  "strings_HasPrefix s p = (take (length p) s = p)"

definition strings_TrimPrefix :: "string \<Rightarrow> string \<Rightarrow> string" where
  "strings_TrimPrefix s p = (if strings_HasPrefix s p then drop (length p) s else s)"

text \<open>
  \<^verbatim>\<open>time.ParseDuration\<close>, \<^verbatim>\<open>time.Parse(time.RFC1123, _)\<close> and \<^verbatim>\<open>json.Unmarshal\<close> into a
  fresh \<^verbatim>\<open>jwk.Set\<close> are not code of this repository: the model takes them as parameters.
  Each returns its error message on the left.
\<close>

record 'ks stdlib =
  time_ParseDuration :: "string \<Rightarrow> string + Duration"
  time_ParseRFC1123 :: "string \<Rightarrow> string + Time"
  json_Unmarshal :: "string \<Rightarrow> string + 'ks"

text \<open>
  An \<^verbatim>\<open>http.Header\<close> is a map from canonical names to value lists; \<^verbatim>\<open>Get\<close> returns the
  first value, or the empty string.
\<close>

type_synonym Header = "string \<rightharpoonup> string list"

definition header_Get :: "Header \<Rightarrow> string \<Rightarrow> string" where
  "header_Get h k = (case h k of None \<Rightarrow> [] | Some [] \<Rightarrow> [] | Some (v # vs) \<Rightarrow> v)"

text \<open>
  The outcome of \<^verbatim>\<open>httpClient.Get\<close> followed by \<^verbatim>\<open>io.ReadAll\<close> of the body: the request
  fails, or a response arrives with its status code, its headers and the body or the
  error of reading it. The \<^verbatim>\<open>http.Client\<close> is the number of requests it has sent and the
  reply of the network to each request.
\<close>

datatype http_reply =
    RequestFailed string
  | Response int Header "string + string"

record http_Client =
  sent :: nat
  network :: "nat \<Rightarrow> string \<Rightarrow> http_reply"

definition http_Get :: "http_Client \<Rightarrow> string \<Rightarrow> http_reply \<times> http_Client" where
  "http_Get hc url = (network hc (sent hc) url, hc\<lparr>sent := Suc (sent hc)\<rparr>)"

subsection \<open>headers.go\<close>

definition headerNameCacheControl :: string where
  "headerNameCacheControl = ''Cache-Control''"

definition headerNameAge :: string where
  "headerNameAge = ''Age''"

definition headerNameExpires :: string where
  "headerNameExpires = ''Expires''"

definition cacheControlFieldMaxAge :: string where
  "cacheControlFieldMaxAge = ''max-age''"

definition cacheControlFieldSMaxAge :: string where
  "cacheControlFieldSMaxAge = ''s-maxage''"

text \<open>
  The loop of \<^verbatim>\<open>parseMaxAge\<close> over the parts of the header: \<^verbatim>\<open>max-age=\<close> ends it
  (\<^verbatim>\<open>break\<close>), \<^verbatim>\<open>s-maxage=\<close> is remembered and the loop goes on (\<^verbatim>\<open>continue\<close>).
\<close>

fun maxAgeLoop :: "string \<Rightarrow> string list \<Rightarrow> string" where
  "maxAgeLoop maxAgeStr [] = maxAgeStr"
| "maxAgeLoop maxAgeStr (p # parts) =
     (let part = strings_TrimSpace p in
      if strings_HasPrefix part (cacheControlFieldMaxAge @ ''='')
      then strings_TrimPrefix part (cacheControlFieldMaxAge @ ''='')
      else if strings_HasPrefix part (cacheControlFieldSMaxAge @ ''='')
      then maxAgeLoop (strings_TrimPrefix part (cacheControlFieldSMaxAge @ ''='')) parts
      else maxAgeLoop maxAgeStr parts)"

text \<open>
  The three parsers return Go's triple \<^verbatim>\<open>(value, ok, err)\<close>, the error as an option
  (\<open>None\<close> is \<^verbatim>\<open>nil\<close>).
\<close>

definition parseMaxAge :: "'ks stdlib \<Rightarrow> Header \<Rightarrow> Duration \<times> bool \<times> error option" where
  "parseMaxAge lib header =
     (let cch = header_Get header ''Cache-Control'' in
      if cch = [] then (0, False, None)
      else let maxAgeStr = maxAgeLoop [] (strings_Split cch CHR '','') in
        if maxAgeStr = [] then (0, False, None)
        else (case time_ParseDuration lib (maxAgeStr @ ''s'') of
                Inl m \<Rightarrow> (0, False, Some (LibError m))
              | Inr maxAge \<Rightarrow> (maxAge, True, None)))"

definition parseAge :: "'ks stdlib \<Rightarrow> Header \<Rightarrow> Duration \<times> bool \<times> error option" where
  "parseAge lib header =
     (let ageStr = header_Get header headerNameAge in
      if ageStr = [] then (0, False, None)
      else (case time_ParseDuration lib (ageStr @ ''s'') of
              Inl m \<Rightarrow> (0, False, Some (LibError m))
            | Inr age \<Rightarrow> (age, True, None)))"

definition parseExpires :: "'ks stdlib \<Rightarrow> Header \<Rightarrow> Time \<times> bool \<times> error option" where
  "parseExpires lib header =
     (let expiresStr = header_Get header headerNameExpires in
      if expiresStr = [] then (zeroTime, False, None)
      else (case time_ParseRFC1123 lib expiresStr of
              Inl m \<Rightarrow> (zeroTime, False, Some (LibError m))
            | Inr expires \<Rightarrow> (expires, True, None)))"

definition expiresAfter :: "'ks stdlib \<Rightarrow> Time \<Rightarrow> Header \<Rightarrow> error + Time" where
  "expiresAfter lib now headers =
     (case parseMaxAge lib headers of
        (maxAge, maxAgeOk, Some err) \<Rightarrow> Inl (Wrapped ''parsing max-age'' err)
      | (maxAge, maxAgeOk, None) \<Rightarrow>
          if maxAgeOk then
            (case parseAge lib headers of
               (age, ageOk, Some err) \<Rightarrow> Inl (Wrapped ''parsing age'' err)
             | (age, ageOk, None) \<Rightarrow>
                 if ageOk then
                   (let totalAge = maxAge - age in
                    if totalAge <s 0 then Inl (NegativeAge maxAge age totalAge)
                    else Inr (time_Add now totalAge))
                 else Inr (time_Add now maxAge))
          else
            (case parseExpires lib headers of
               (expires, expiresOk, Some err) \<Rightarrow> Inl (Wrapped ''parsing expires'' err)
             | (expires, expiresOk, None) \<Rightarrow>
                 if \<not> expiresOk then Inl CacheHeadersNotPresent
                 else Inr expires))"

subsection \<open>client.go\<close>

text \<open>
  A \<^verbatim>\<open>nil\<close> slice, map, interface or error is \<open>None\<close>.
\<close>

record 'ks Client =
  config :: Config
  httpClient :: http_Client
  cacheExpiresAfter :: Time
  cachedResponse :: "string option"
  cachedHeaders :: "Header option"
  cachedJWKSet :: "'ks option"
  cachedError :: "error option"
  keysStaleSince :: Time

definition New :: "Config \<Rightarrow> http_Client \<Rightarrow> error + 'ks Client" where
  "New cfg client =
     (case Validate cfg of
        Some err \<Rightarrow> Inl (Wrapped ''validating config'' err)
      | None \<Rightarrow> Inr \<lparr> config = cfg, httpClient = client, cacheExpiresAfter = zeroTime,
          cachedResponse = None, cachedHeaders = None, cachedJWKSet = None,
          cachedError = None, keysStaleSince = zeroTime \<rparr>)"

text \<open>\<^verbatim>\<open>GetKeySet\<close> reads the clock once; \<open>now\<close> is that reading.\<close>

definition GetKeySet :: "'ks Client \<Rightarrow> Time \<Rightarrow> 'ks option \<times> error option" where
  "GetKeySet c now =
     (if cachedError c \<noteq> None
         \<and> (time_Before (time_Add (keysStaleSince c) (KeepStaleKeys (config c))) now
            \<or> cachedJWKSet c = None)
      then (None, cachedError c)
      else if cachedJWKSet c = None then (None, Some ErrKeysNotFetched)
      else (cachedJWKSet c, None))"

definition GetAll ::
  "'ks Client \<Rightarrow> 'ks option \<times> Header option \<times> string option \<times> error option" where
  "GetAll c = (cachedJWKSet c, cachedHeaders c, cachedResponse c, cachedError c)"

text \<open>
  \<^verbatim>\<open>get\<close> returns \<^verbatim>\<open>(jwkSet, responseBody, headers, err)\<close> and the \<^verbatim>\<open>http.Client\<close> after
  the request.
\<close>

definition get ::
  "'ks stdlib \<Rightarrow> 'ks Client \<Rightarrow>
     ('ks option \<times> string option \<times> Header option \<times> error option) \<times> http_Client" where
  "get lib c =
     (case http_Get (httpClient c) (URL (config c)) of
        (RequestFailed m, hc) \<Rightarrow>
          ((None, None, None, Some (Wrapped ''performing request'' (LibError m))), hc)
      | (Response status hdr (Inl m), hc) \<Rightarrow>
          ((None, None, Some hdr, Some (Wrapped ''reading response body'' (LibError m))), hc)
      | (Response status hdr (Inr body), hc) \<Rightarrow>
          if status \<noteq> 200 then ((None, Some body, Some hdr, Some (UnexpectedStatus status)), hc)
          else (case json_Unmarshal lib body of
                  Inl m \<Rightarrow>
                    ((None, Some body, Some hdr,
                      Some (Wrapped ''unmarshalling JSON'' (LibError m))), hc)
                | Inr kSet \<Rightarrow> ((Some kSet, Some body, Some hdr, None), hc)))"

text \<open>
  \<^verbatim>\<open>updateExpiresAfter\<close> reads the clock once (\<open>now\<close>). A \<^verbatim>\<open>nil\<close> header map reads as
  the empty one.
\<close>

definition updateExpiresAfter ::
  "'ks stdlib \<Rightarrow> 'ks Client \<Rightarrow> Time \<Rightarrow> Header option \<Rightarrow> error option \<Rightarrow> 'ks Client" where
  "updateExpiresAfter lib c now headers err =
     (if err \<noteq> None then
        (if 0 <s CacheErrors (config c)
         then c\<lparr>cacheExpiresAfter := time_Add now (CacheErrors (config c))\<rparr>
         else c)
      else
        (case expiresAfter lib now (case headers of None \<Rightarrow> Map.empty | Some h \<Rightarrow> h) of
           Inl err' \<Rightarrow> c\<lparr>cacheExpiresAfter := time_Add now (CacheMin (config c))\<rparr>
         | Inr headersExpiresAfter \<Rightarrow>
             (let e1 = (if time_Before (time_Add now (CacheMax (config c))) headersExpiresAfter
                        then time_Add now (CacheMax (config c))
                        else headersExpiresAfter);
                  e2 = (if time_Before e1 (time_Add now (CacheMin (config c)))
                        then time_Add now (CacheMin (config c))
                        else e1)
              in c\<lparr>cacheExpiresAfter := e2\<rparr>)))"

text \<open>
  \<^verbatim>\<open>Refresh\<close> reads the clock up to three times: \<open>now0\<close> for the freshness check,
  \<open>now1\<close> when it stamps \<^verbatim>\<open>keysStaleSince\<close>, \<open>now2\<close> inside \<^verbatim>\<open>updateExpiresAfter\<close>.
  It returns the client, \<^verbatim>\<open>refreshed\<close> and the error.
\<close>

definition Refresh ::
  "'ks stdlib \<Rightarrow> 'ks Client \<Rightarrow> bool \<Rightarrow> Time \<Rightarrow> Time \<Rightarrow> Time \<Rightarrow>
     'ks Client \<times> bool \<times> error option" where
  "Refresh lib c force now0 now1 now2 =
     (if \<not> force \<and> \<not> time_After now0 (cacheExpiresAfter c) then (c, False, None)
      else
        (case get lib c of
           ((ks, resp, headers, err), hc) \<Rightarrow>
             (let c1 = c\<lparr>httpClient := hc\<rparr>;
                  c2 = (if err \<noteq> None \<and> time_IsZero (keysStaleSince c1)
                        then c1\<lparr>keysStaleSince := now1\<rparr> else c1);
                  c3 = c2\<lparr>cachedHeaders := headers, cachedResponse := resp,
                          cachedError := err\<rparr>;
                  c4 = (if err = None
                        then c3\<lparr>keysStaleSince := zeroTime, cachedJWKSet := ks\<rparr> else c3)
              in (updateExpiresAfter lib c4 now2 headers err, True, err))))"

subsection \<open>Sequences of calls\<close>

text \<open>
  A call of \<^verbatim>\<open>Refresh\<close> is its argument and its three clock readings; the log keeps,
  for each call, what it returned and the reading \<open>now1\<close>. \<^verbatim>\<open>RefreshCalls\<close> runs the
  calls in order, as the loop of \<^verbatim>\<open>Refresher\<close> and any other caller do.
\<close>

type_synonym call = "bool \<times> Time \<times> Time \<times> Time"
type_synonym outcome = "bool \<times> error option \<times> Time"

definition RefreshStep ::
  "'ks stdlib \<Rightarrow> 'ks Client \<times> outcome list \<Rightarrow> call \<Rightarrow> 'ks Client \<times> outcome list" where
  "RefreshStep lib s a =
     (case s of (c, log) \<Rightarrow>
        (case a of (force, now0, now1, now2) \<Rightarrow>
           (case Refresh lib c force now0 now1 now2 of
              (c', refreshed, err) \<Rightarrow> (c', log @ [(refreshed, err, now1)]))))"

definition RefreshCalls ::
  "'ks stdlib \<Rightarrow> 'ks Client \<Rightarrow> call list \<Rightarrow> 'ks Client \<times> outcome list" where
  "RefreshCalls lib c calls = foldl (RefreshStep lib) (c, []) calls"

text \<open>
  The words of the specification for \<^verbatim>\<open>staleSince\<close>: among the attempts that ran, the
  failures since the last success (newest first), and the clock reading of the first of
  them; the zero time when there is none.
\<close>

definition failureRun :: "outcome list \<Rightarrow> outcome list" where
  "failureRun log =
     takeWhile (\<lambda>(refreshed, err, t). err \<noteq> None)
       (rev (filter (\<lambda>(refreshed, err, t). refreshed) log))"

definition firstFailure :: "outcome list \<Rightarrow> Time" where
  "firstFailure log =
     (case failureRun log of [] \<Rightarrow> zeroTime | x # xs \<Rightarrow> snd (snd (last (x # xs))))"

subsection \<open>A library and a network to run the model on\<close>

text \<open>
  Stand-ins for the three library functions, for evaluating the model on concrete
  inputs: durations written as decimal digits followed by \<^verbatim>\<open>s\<close> (where
  \<^verbatim>\<open>time.ParseDuration\<close> gives that many seconds, or fails beyond \<^verbatim>\<open>int64\<close>), one date,
  and a codec that knows one document, \<^verbatim>\<open>{"keys":[]}\<close>, the empty key set; a key set
  is the list of its key identifiers.
\<close>

definition digitVal :: "char \<Rightarrow> nat option" where
  "digitVal c =
     (let n = (of_char c :: nat) in if 48 \<le> n \<and> n \<le> 57 then Some (n - 48) else None)"

fun decimal :: "nat \<Rightarrow> string \<Rightarrow> nat option" where
  "decimal x [] = Some x"
| "decimal x (c # cs) =
     (case digitVal c of None \<Rightarrow> None | Some d \<Rightarrow> decimal (x * 10 + d) cs)"

definition invalidDuration :: "string \<Rightarrow> string" where
  "invalidDuration s = ''time: invalid duration '' @ [CHR 0x22] @ s @ [CHR 0x22]"

definition fake_ParseDuration :: "string \<Rightarrow> string + Duration" where
  "fake_ParseDuration s =
     (if length s < 2 \<or> last s \<noteq> CHR ''s'' then Inl (invalidDuration s)
      else (case decimal 0 (butlast s) of
              None \<Rightarrow> Inl (invalidDuration s)
            | Some n \<Rightarrow>
                if n * 1000000000 < 2 ^ 63 then Inr (of_nat (n * 1000000000))
                else Inl (invalidDuration s)))"

definition fake_ParseRFC1123 :: "string \<Rightarrow> string + Time" where
  "fake_ParseRFC1123 s =
     (if s = ''Mon, 01 Jan 0001 00:01:00 UTC'' then Inr 60000000000
      else Inl ''parsing time: cannot parse'')"

definition emptyKeySetJSON :: string where
  "emptyKeySetJSON = ''{'' @ [CHR 0x22] @ ''keys'' @ [CHR 0x22] @ '':[]}''"

definition fake_Unmarshal :: "string \<Rightarrow> string + string list" where
  "fake_Unmarshal body =
     (if body = emptyKeySetJSON then Inr []
      else Inl ''failed to parse sole key in key set'')"

definition fakelib :: "string list stdlib" where
  "fakelib = \<lparr> time_ParseDuration = fake_ParseDuration,
      time_ParseRFC1123 = fake_ParseRFC1123, json_Unmarshal = fake_Unmarshal \<rparr>"

text \<open>
  Response headers \<^verbatim>\<open>Cache-Control: public, max-age=120\<close>, alone and with \<^verbatim>\<open>Age: 20\<close>
  or \<^verbatim>\<open>Age: 200\<close>; headers with \<^verbatim>\<open>max-age=120\<close> on a second \<^verbatim>\<open>Cache-Control\<close> line, after
  \<^verbatim>\<open>public\<close> on the first; headers with a max-age of more seconds than an \<^verbatim>\<open>int64\<close> of
  nanoseconds holds; a network that answers every request with given headers and an
  empty key set, one that is down, and one that answers the first request and is down
  afterwards.
\<close>

definition hdr120 :: Header where
  "hdr120 = [''Cache-Control'' \<mapsto> [''public, max-age=120'']]"

definition hdr120age20 :: Header where
  "hdr120age20 = [''Cache-Control'' \<mapsto> [''public, max-age=120''], ''Age'' \<mapsto> [''20'']]"

definition hdr120age200 :: Header where
  "hdr120age200 = [''Cache-Control'' \<mapsto> [''public, max-age=120''], ''Age'' \<mapsto> [''200'']]"

definition hdr_second_line :: Header where
  "hdr_second_line = [''Cache-Control'' \<mapsto> [''public'', ''max-age=120'']]"

definition hdr_too_long :: Header where
  "hdr_too_long = [''Cache-Control'' \<mapsto> [''max-age=9223372037'']]"

definition net_up :: "Header \<Rightarrow> nat \<Rightarrow> string \<Rightarrow> http_reply" where
  "net_up hdr i url = Response 200 hdr (Inr emptyKeySetJSON)"

definition net_down :: "nat \<Rightarrow> string \<Rightarrow> http_reply" where
  "net_down i url = RequestFailed ''connection refused''"

definition net_up_once :: "Header \<Rightarrow> nat \<Rightarrow> string \<Rightarrow> http_reply" where
  "net_up_once hdr i url = (if i = 0 then net_up hdr i url else net_down i url)"

definition cfg0 :: Config where
  "cfg0 = NewConfig\<lparr>URL := ''https://example.org/jwks''\<rparr>"

text \<open>The client that \<^verbatim>\<open>New\<close> builds from a configuration and a network.\<close>

definition fresh :: "Config \<Rightarrow> (nat \<Rightarrow> string \<Rightarrow> http_reply) \<Rightarrow> string list Client" where
  "fresh cfg net = \<lparr> config = cfg, httpClient = \<lparr> sent = 0, network = net \<rparr>,
      cacheExpiresAfter = zeroTime, cachedResponse = None, cachedHeaders = None,
      cachedJWKSet = None, cachedError = None, keysStaleSince = zeroTime \<rparr>"

text \<open>
  A scenario: the first refresh succeeds at 1000 ns and is trusted for 120 s; the next
  one, 200 s later, finds the network down.
\<close>

definition after_success :: "string list Client" where
  "after_success = fst (Refresh fakelib (fresh cfg0 (net_up_once hdr120)) False 1000 1000 1000)"

definition after_outage :: "string list Client" where
  "after_outage =
     fst (Refresh fakelib after_success False 200000000000 200000000001 200000000002)"

text \<open>
  Three more: with \<^verbatim>\<open>CacheErrors = 0\<close>, a first refresh that finds the network down; a
  first refresh that succeeds, followed by a forced one that fails while the cache is
  still fresh; and three calls of \<^verbatim>\<open>Refresh(false)\<close>, of which the first succeeds and
  the next two fail.
\<close>

definition down_once :: "string list Client" where
  "down_once = fst (Refresh fakelib (fresh (cfg0\<lparr>CacheErrors := 0\<rparr>) net_down) False 1000 1000 1000)"

definition served_once :: "string list Client" where
  "served_once =
     fst (Refresh fakelib (fresh (cfg0\<lparr>CacheErrors := 0\<rparr>) (net_up_once hdr120))
       False 1000 1000 1000)"

definition forced_failure :: "string list Client" where
  "forced_failure = fst (Refresh fakelib served_once True 2000 2001 2002)"

definition three_calls :: "call list" where
  "three_calls = [(False, 1000, 1000, 1000),
     (False, 200000000000, 200000000001, 200000000002),
     (False, 300000000000, 300000000001, 300000000002)]"

section \<open>Properties\<close>

subsection \<open>Arithmetic and frame lemmas\<close>

lemma sint_sub_nowrap:
  fixes n m :: Duration
  assumes "0 \<le>s m" and "m \<le>s n"
  shows "sint (n - m) = sint n - sint m"
proof -
  have m: "0 \<le> sint m" and mn: "sint m \<le> sint n"
    using assms by (simp_all add: word_sle_eq)
  have "sint n < 2 ^ 63"
    using sint_lt [of n] by simp
  with m mn have "- (2 ^ 63) \<le> sint n - sint m" and "sint n - sint m < 2 ^ 63"
    by simp_all
  then have "signed_take_bit 63 (sint n - sint m) = sint n - sint m"
    by (rule signed_take_bit_int_eq_self)
  then show ?thesis
    by (simp add: sint_word_diff)
qed

lemma updateExpiresAfter_frame:
  "updateExpiresAfter lib c now headers err =
     c\<lparr>cacheExpiresAfter := cacheExpiresAfter (updateExpiresAfter lib c now headers err)\<rparr>"
  by (simp add: updateExpiresAfter_def Let_def split: sum.splits)

lemma expiry_after_failure:
  "cacheExpiresAfter (updateExpiresAfter lib c now headers (Some e)) =
     (if 0 <s CacheErrors (config c) then time_Add now (CacheErrors (config c))
      else cacheExpiresAfter c)"
  by (simp add: updateExpiresAfter_def)

lemma expiry_after_header_failure:
  "expiresAfter lib now h = Inl e \<Longrightarrow>
   cacheExpiresAfter (updateExpiresAfter lib c now (Some h) None) =
     time_Add now (CacheMin (config c))"
  by (simp add: updateExpiresAfter_def)

lemma expiry_after_success:
  "expiresAfter lib now h = Inr E \<Longrightarrow>
   cacheExpiresAfter (updateExpiresAfter lib c now (Some h) None) =
     max (time_Add now (CacheMin (config c))) (min E (time_Add now (CacheMax (config c))))"
  by (auto simp: updateExpiresAfter_def Let_def time_Before_def)

lemma get_shape:
  "get lib c = ((ks, resp, headers, err), hc) \<Longrightarrow>
   hc = (httpClient c)\<lparr>sent := Suc (sent (httpClient c))\<rparr>
   \<and> (err = None \<longleftrightarrow> ks \<noteq> None) \<and> (err = None \<longrightarrow> headers \<noteq> None)
   \<and> err \<noteq> Some ErrKeysNotFetched"
  by (auto simp: get_def http_Get_def split: http_reply.splits sum.splits if_splits)

lemma Refresh_noop:
  "\<not> force \<and> \<not> time_After now0 (cacheExpiresAfter c) \<Longrightarrow>
   Refresh lib c force now0 now1 now2 = (c, False, None)"
  by (simp add: Refresh_def)

lemma updateExpiresAfter_others:
  "config (updateExpiresAfter lib c now headers err) = config c"
  "httpClient (updateExpiresAfter lib c now headers err) = httpClient c"
  "cachedResponse (updateExpiresAfter lib c now headers err) = cachedResponse c"
  "cachedHeaders (updateExpiresAfter lib c now headers err) = cachedHeaders c"
  "cachedJWKSet (updateExpiresAfter lib c now headers err) = cachedJWKSet c"
  "cachedError (updateExpiresAfter lib c now headers err) = cachedError c"
  "keysStaleSince (updateExpiresAfter lib c now headers err) = keysStaleSince c"
  "Client.more (updateExpiresAfter lib c now headers err) = Client.more c"
  by (simp_all add: updateExpiresAfter_def Let_def split: sum.splits)

lemma expiry_ignores:
  "cacheExpiresAfter (updateExpiresAfter lib (c\<lparr>httpClient := a\<rparr>) now headers err) =
     cacheExpiresAfter (updateExpiresAfter lib c now headers err)"
  "cacheExpiresAfter (updateExpiresAfter lib (c\<lparr>cachedHeaders := b\<rparr>) now headers err) =
     cacheExpiresAfter (updateExpiresAfter lib c now headers err)"
  "cacheExpiresAfter (updateExpiresAfter lib (c\<lparr>cachedResponse := d\<rparr>) now headers err) =
     cacheExpiresAfter (updateExpiresAfter lib c now headers err)"
  "cacheExpiresAfter (updateExpiresAfter lib (c\<lparr>cachedError := f\<rparr>) now headers err) =
     cacheExpiresAfter (updateExpiresAfter lib c now headers err)"
  "cacheExpiresAfter (updateExpiresAfter lib (c\<lparr>keysStaleSince := g\<rparr>) now headers err) =
     cacheExpiresAfter (updateExpiresAfter lib c now headers err)"
  "cacheExpiresAfter (updateExpiresAfter lib (c\<lparr>cachedJWKSet := k\<rparr>) now headers err) =
     cacheExpiresAfter (updateExpiresAfter lib c now headers err)"
  by (simp_all add: updateExpiresAfter_def Let_def split: sum.splits)

lemma Refresh_run:
  assumes "force \<or> time_After now0 (cacheExpiresAfter c)"
    and "get lib c = ((ks, resp, headers, err), hc)"
  shows "Refresh lib c force now0 now1 now2 =
     (c\<lparr>httpClient := hc, cachedHeaders := headers, cachedResponse := resp,
        cachedError := err,
        keysStaleSince := (if err = None then zeroTime
                           else if time_IsZero (keysStaleSince c) then now1
                           else keysStaleSince c),
        cachedJWKSet := (if err = None then ks else cachedJWKSet c),
        cacheExpiresAfter := cacheExpiresAfter (updateExpiresAfter lib c now2 headers err)\<rparr>,
      True, err)"
proof -
  obtain c' r e where R: "Refresh lib c force now0 now1 now2 = (c', r, e)"
    by (cases "Refresh lib c force now0 now1 now2")
  have re: "r = True" "e = err"
    using R assms by (auto simp: Refresh_def Let_def)
  have "c' = c\<lparr>httpClient := hc, cachedHeaders := headers, cachedResponse := resp,
        cachedError := err,
        keysStaleSince := (if err = None then zeroTime
                           else if time_IsZero (keysStaleSince c) then now1
                           else keysStaleSince c),
        cachedJWKSet := (if err = None then ks else cachedJWKSet c),
        cacheExpiresAfter := cacheExpiresAfter (updateExpiresAfter lib c now2 headers err)\<rparr>"
    using R assms
    by (intro Client.equality)
       (auto simp: Refresh_def Let_def updateExpiresAfter_others expiry_ignores)
  with R re show ?thesis by simp
qed

lemma get_cases:
  obtains ks resp headers err hc where "get lib c = ((ks, resp, headers, err), hc)"
  by (metis prod.exhaust)

lemma Refresh_result:
  assumes "Refresh lib c force now0 now1 now2 = (c', r, e)"
  shows "r = (force \<or> time_After now0 (cacheExpiresAfter c))"
    and "keysStaleSince c' =
      (if \<not> r then keysStaleSince c
       else if e = None then zeroTime
       else if time_IsZero (keysStaleSince c) then now1
       else keysStaleSince c)"
    and "sent (httpClient c') = (if r then Suc (sent (httpClient c)) else sent (httpClient c))"
    and "\<not> r \<Longrightarrow> c' = c \<and> e = None"
proof -
  obtain ks resp headers err hc where g: "get lib c = ((ks, resp, headers, err), hc)"
    by (rule get_cases)
  show "r = (force \<or> time_After now0 (cacheExpiresAfter c))"
    using assms Refresh_run [OF _ g, of force now0 now1 now2]
      Refresh_noop [of force now0 c lib now1 now2]
    by (cases "force \<or> time_After now0 (cacheExpiresAfter c)") auto
  show "keysStaleSince c' =
      (if \<not> r then keysStaleSince c
       else if e = None then zeroTime
       else if time_IsZero (keysStaleSince c) then now1
       else keysStaleSince c)"
    using assms Refresh_run [OF _ g, of force now0 now1 now2]
      Refresh_noop [of force now0 c lib now1 now2]
    by (cases "force \<or> time_After now0 (cacheExpiresAfter c)") auto
  show "sent (httpClient c') = (if r then Suc (sent (httpClient c)) else sent (httpClient c))"
    using assms Refresh_run [OF _ g, of force now0 now1 now2]
      Refresh_noop [of force now0 c lib now1 now2] get_shape [OF g]
    by (cases "force \<or> time_After now0 (cacheExpiresAfter c)") auto
  show "\<not> r \<Longrightarrow> c' = c \<and> e = None"
    using assms Refresh_run [OF _ g, of force now0 now1 now2]
      Refresh_noop [of force now0 c lib now1 now2]
    by (cases "force \<or> time_After now0 (cacheExpiresAfter c)") auto
qed

lemma expiry_floor:
  "time_Add now (CacheMin (config c)) \<le>
     cacheExpiresAfter (updateExpiresAfter lib c now (Some h) None)"
  by (cases "expiresAfter lib now h")
     (simp_all add: expiry_after_header_failure expiry_after_success)

text \<open>
  Over a sequence of calls, a key set is cached exactly when it was cached at the start
  or some attempt succeeded.
\<close>

lemma RefreshCalls_snoc:
  "RefreshCalls lib c (calls @ [a]) = RefreshStep lib (RefreshCalls lib c calls) a"
  by (simp add: RefreshCalls_def)

lemma Refresh_keyset:
  assumes "Refresh lib c force now0 now1 now2 = (c', r, e)"
  shows "(cachedJWKSet c' \<noteq> None) = (cachedJWKSet c \<noteq> None \<or> (r \<and> e = None))"
proof -
  obtain ks resp headers err hc where g: "get lib c = ((ks, resp, headers, err), hc)"
    by (rule get_cases)
  show ?thesis
    using assms Refresh_run [OF _ g, of force now0 now1 now2]
      Refresh_noop [of force now0 c lib now1 now2] get_shape [OF g]
    by (cases "force \<or> time_After now0 (cacheExpiresAfter c)") auto
qed

lemma cachedJWKSet_loaded_iff:
  "(cachedJWKSet (fst (RefreshCalls lib c calls)) \<noteq> None) =
     (cachedJWKSet c \<noteq> None
      \<or> (\<exists>x \<in> set (snd (RefreshCalls lib c calls)). fst x \<and> fst (snd x) = None))"
proof (induction calls rule: rev_induct)
  case Nil
  show ?case
    by (simp add: RefreshCalls_def)
next
  case (snoc a calls)
  obtain force now0 now1 now2 where a: "a = (force, now0, now1, now2)"
    by (cases a)
  obtain c1 log where s: "RefreshCalls lib c calls = (c1, log)"
    by (cases "RefreshCalls lib c calls")
  obtain c' r e where R: "Refresh lib c1 force now0 now1 now2 = (c', r, e)"
    by (cases "Refresh lib c1 force now0 now1 now2")
  have "RefreshCalls lib c (calls @ [a]) = (c', log @ [(r, e, now1)])"
    using a s R by (simp add: RefreshCalls_snoc RefreshStep_def)
  with snoc s Refresh_keyset [OF R] show ?case
    by auto
qed

subsection \<open>The ways the header calculation fails\<close>

lemma expiresAfter_failures:
  "\<And>x ok err. parseMaxAge lib h = (x, ok, Some err) \<Longrightarrow>
     expiresAfter lib now h = Inl (Wrapped ''parsing max-age'' err)"
  "\<And>N x ok err. parseMaxAge lib h = (N, True, None) \<Longrightarrow>
     parseAge lib h = (x, ok, Some err) \<Longrightarrow>
     expiresAfter lib now h = Inl (Wrapped ''parsing age'' err)"
  "\<And>N M. parseMaxAge lib h = (N, True, None) \<Longrightarrow> parseAge lib h = (M, True, None) \<Longrightarrow>
     0 \<le>s N \<Longrightarrow> N <s M \<Longrightarrow> expiresAfter lib now h = Inl (NegativeAge N M (N - M))"
  "\<And>x y ok err. parseMaxAge lib h = (x, False, None) \<Longrightarrow>
     parseExpires lib h = (y, ok, Some err) \<Longrightarrow>
     expiresAfter lib now h = Inl (Wrapped ''parsing expires'' err)"
  "header_Get h ''Cache-Control'' = [] \<Longrightarrow> header_Get h headerNameExpires = [] \<Longrightarrow>
     expiresAfter lib now h = Inl CacheHeadersNotPresent"
proof -
  fix N M :: Duration
  assume a: "parseMaxAge lib h = (N, True, None)" "parseAge lib h = (M, True, None)"
    and n: "0 \<le>s N" "N <s M"
  have "sint (N - M) = signed_take_bit 63 (sint N - sint M)"
    by (simp add: sint_word_diff)
  also have "signed_take_bit 63 (sint N - sint M) = sint N - sint M"
  proof (rule signed_take_bit_int_eq_self)
    have "sint M < 2 ^ 63" using sint_lt [of M] by simp
    with n show "- (2 ^ 63) \<le> sint N - sint M" by (simp add: word_sle_eq)
    from n show "sint N - sint M < 2 ^ 63" by (simp add: word_sless_alt)
  qed
  finally have "N - M <s 0"
    using n by (simp add: word_sless_alt)
  with a show "expiresAfter lib now h = Inl (NegativeAge N M (N - M))"
    by (simp add: expiresAfter_def Let_def)
qed (simp_all add: expiresAfter_def parseMaxAge_def parseExpires_def)

subsection \<open>Reading max-age and Age from the header text\<close>

text \<open>
  The loop of \<^verbatim>\<open>parseMaxAge\<close> returns what follows \<^verbatim>\<open>max-age=\<close> in the first part
  that starts with it, whatever the parts before it are.
\<close>

lemma maxAgeLoop_first_max_age:
  assumes "\<forall>q \<in> set pre. \<not> strings_HasPrefix (strings_TrimSpace q) ''max-age=''"
    and "strings_TrimSpace p = ''max-age='' @ n"
  shows "maxAgeLoop acc (pre @ p # post) = n"
  using assms(1)
proof (induction pre arbitrary: acc)
  case Nil
  from assms(2) show ?case
    by (simp add: strings_HasPrefix_def strings_TrimPrefix_def cacheControlFieldMaxAge_def)
next
  case (Cons q pre)
  then show ?case
    by (simp add: Let_def cacheControlFieldMaxAge_def)
qed

lemma parseMaxAge_reads:
  assumes "strings_Split (header_Get h ''Cache-Control'') CHR '','' = pre @ p # post"
    and "\<forall>q \<in> set pre. \<not> strings_HasPrefix (strings_TrimSpace q) ''max-age=''"
    and "strings_TrimSpace p = ''max-age='' @ n" and "n \<noteq> []"
    and "time_ParseDuration lib (n @ ''s'') = Inr N"
  shows "parseMaxAge lib h = (N, True, None)"
proof -
  have "trimLeftSpace [] = []" and "trimRightSpace [] = []"
    by simp_all
  then have "strings_TrimSpace [] = []"
    by (simp add: strings_TrimSpace_def)
  with assms(3) have "p \<noteq> []"
    by auto
  with assms(1) have "header_Get h ''Cache-Control'' \<noteq> []"
    by (cases pre) auto
  moreover have "maxAgeLoop [] (strings_Split (header_Get h ''Cache-Control'') CHR '','') = n"
    using assms(1-3) by (simp add: maxAgeLoop_first_max_age)
  ultimately show ?thesis
    using assms(4,5) by (simp add: parseMaxAge_def Let_def)
qed

lemma parseAge_reads:
  assumes "header_Get h ''Age'' = a" and "a \<noteq> []"
    and "time_ParseDuration lib (a @ ''s'') = Inr M"
  shows "parseAge lib h = (M, True, None)"
  using assms by (simp add: parseAge_def headerNameAge_def)

subsection \<open>Evaluating the scenario\<close>

lemmas time_defs = zeroTime_def time_Add_def time_Before_def time_After_def time_IsZero_def
  Second_def Minute_def Hour_def word_sless_alt word_sle_eq

lemmas header_defs = expiresAfter_def parseMaxAge_def parseAge_def parseExpires_def
  header_Get_def strings_TrimSpace_def asciiSpace_def spaceRune2_def spaceRune3_def
  strings_HasPrefix_def
  strings_TrimPrefix_def cacheControlFieldMaxAge_def cacheControlFieldSMaxAge_def
  headerNameAge_def headerNameExpires_def

lemma fakelib_sel:
  "time_ParseDuration fakelib = fake_ParseDuration"
  "time_ParseRFC1123 fakelib = fake_ParseRFC1123"
  "json_Unmarshal fakelib = fake_Unmarshal"
  by (simp_all add: fakelib_def)

lemmas fake_defs = fakelib_sel digitVal_def invalidDuration_def fake_ParseDuration_def fake_ParseRFC1123_def
  fake_Unmarshal_def hdr120_def hdr120age20_def hdr120age200_def net_up_def net_down_def
  net_up_once_def cfg0_def NewConfig_def fresh_def

lemmas client_defs = Refresh_def get_def http_Get_def updateExpiresAfter_def GetKeySet_def
  New_def Validate_def

lemma TrimSpace_examples:
  "strings_TrimSpace '' max-age=120 '' = ''max-age=120''"
  "strings_TrimSpace ([CHR 0xC2, CHR 0xA0] @ ''max-age=120'' @ [CHR 0xE2, CHR 0x80, CHR 0x85])
     = ''max-age=120''"
  "strings_TrimSpace [CHR 0xA0, CHR 0x61, CHR 0xC2] = [CHR 0xA0, CHR 0x61, CHR 0xC2]"
  by (simp_all add: strings_TrimSpace_def asciiSpace_def spaceRune2_def spaceRune3_def)

lemma hdr120_expiry: "expiresAfter fakelib 1000 hdr120 = Inr 120000001000"
  by (simp add: header_defs fake_defs time_defs)

lemma after_success_eq:
  "after_success = \<lparr> config = cfg0, httpClient = \<lparr> sent = 1, network = net_up_once hdr120 \<rparr>,
      cacheExpiresAfter = 120000001000, cachedResponse = Some emptyKeySetJSON,
      cachedHeaders = Some hdr120, cachedJWKSet = Some [], cachedError = None,
      keysStaleSince = 0 \<rparr>"
  unfolding after_success_def
  by (simp add: client_defs hdr120_expiry fakelib_sel fake_Unmarshal_def net_up_def
      net_up_once_def fresh_def time_defs cfg0_def NewConfig_def Let_def)

lemma after_outage_eq:
  "after_outage = \<lparr> config = cfg0, httpClient = \<lparr> sent = 2, network = net_up_once hdr120 \<rparr>,
      cacheExpiresAfter = 230000000002, cachedResponse = None,
      cachedHeaders = None, cachedJWKSet = Some [],
      cachedError = Some (Wrapped ''performing request'' (LibError ''connection refused'')),
      keysStaleSince = 200000000001 \<rparr>"
  unfolding after_outage_def after_success_eq
  by (simp add: client_defs fakelib_sel net_down_def net_up_once_def time_defs cfg0_def
      NewConfig_def Let_def)

lemma hdr120age20_expiry: "expiresAfter fakelib 1000 hdr120age20 = Inr 100000001000"
  by (simp add: header_defs fake_defs time_defs)

lemma hdr120age200_expiry:
  "expiresAfter fakelib now hdr120age200 =
     Inl (NegativeAge 120000000000 200000000000 (- 80000000000))"
  by (simp add: header_defs fake_defs time_defs)

lemma down_once_eq:
  "down_once = \<lparr> config = cfg0\<lparr>CacheErrors := 0\<rparr>,
      httpClient = \<lparr> sent = 1, network = net_down \<rparr>,
      cacheExpiresAfter = 0, cachedResponse = None, cachedHeaders = None,
      cachedJWKSet = None,
      cachedError = Some (Wrapped ''performing request'' (LibError ''connection refused'')),
      keysStaleSince = 1000 \<rparr>"
  unfolding down_once_def
  by (simp add: client_defs fakelib_sel net_down_def fresh_def time_defs cfg0_def
      NewConfig_def Let_def)

lemma served_once_eq:
  "served_once = \<lparr> config = cfg0\<lparr>CacheErrors := 0\<rparr>,
      httpClient = \<lparr> sent = 1, network = net_up_once hdr120 \<rparr>,
      cacheExpiresAfter = 120000001000, cachedResponse = Some emptyKeySetJSON,
      cachedHeaders = Some hdr120, cachedJWKSet = Some [], cachedError = None,
      keysStaleSince = 0 \<rparr>"
  unfolding served_once_def
  by (simp add: client_defs hdr120_expiry fakelib_sel fake_Unmarshal_def net_up_def
      net_up_once_def fresh_def time_defs cfg0_def NewConfig_def Let_def)

lemma forced_failure_eq:
  "forced_failure = \<lparr> config = cfg0\<lparr>CacheErrors := 0\<rparr>,
      httpClient = \<lparr> sent = 2, network = net_up_once hdr120 \<rparr>,
      cacheExpiresAfter = 120000001000, cachedResponse = None,
      cachedHeaders = None, cachedJWKSet = Some [],
      cachedError = Some (Wrapped ''performing request'' (LibError ''connection refused'')),
      keysStaleSince = 2001 \<rparr>"
  unfolding forced_failure_def served_once_eq
  by (simp add: client_defs fakelib_sel net_down_def net_up_once_def time_defs cfg0_def
      NewConfig_def Let_def)

lemma three_calls_eq:
  "RefreshCalls fakelib (fresh cfg0 (net_up_once hdr120)) three_calls =
     (\<lparr> config = cfg0, httpClient = \<lparr> sent = 3, network = net_up_once hdr120 \<rparr>,
        cacheExpiresAfter = 330000000002, cachedResponse = None, cachedHeaders = None,
        cachedJWKSet = Some [],
        cachedError = Some (Wrapped ''performing request'' (LibError ''connection refused'')),
        keysStaleSince = 200000000001 \<rparr>,
      [(True, None, 1000),
       (True, Some (Wrapped ''performing request'' (LibError ''connection refused'')),
        200000000001),
       (True, Some (Wrapped ''performing request'' (LibError ''connection refused'')),
        300000000001)])"
  by (simp add: RefreshCalls_def RefreshStep_def three_calls_def client_defs hdr120_expiry
      fakelib_sel fake_Unmarshal_def net_up_def net_down_def net_up_once_def fresh_def
      time_defs cfg0_def NewConfig_def Let_def)

lemma three_calls_firstFailure:
  "firstFailure (snd (RefreshCalls fakelib (fresh cfg0 (net_up_once hdr120)) three_calls)) =
     200000000001"
  by (simp add: three_calls_eq firstFailure_def failureRun_def)

lemma first_down_eval:
  "Refresh fakelib (fresh cfg0 net_down) False 1000 1000 1000 =
     (\<lparr> config = cfg0, httpClient = \<lparr> sent = 1, network = net_down \<rparr>,
        cacheExpiresAfter = 30000001000, cachedResponse = None, cachedHeaders = None,
        cachedJWKSet = None,
        cachedError = Some (Wrapped ''performing request'' (LibError ''connection refused'')),
        keysStaleSince = 1000 \<rparr>,
      True, Some (Wrapped ''performing request'' (LibError ''connection refused'')))"
  by (simp add: client_defs fakelib_sel net_down_def fresh_def time_defs cfg0_def
      NewConfig_def Let_def)

lemma first_up_eval:
  "Refresh fakelib (fresh cfg0 (net_up_once hdr120)) False 1000 1000 1000 =
     (after_success, True, None)"
  unfolding after_success_eq
  by (simp add: client_defs hdr120_expiry fakelib_sel fake_Unmarshal_def net_up_def
      net_up_once_def fresh_def time_defs cfg0_def NewConfig_def Let_def)

subsection \<open>GetKeySet\<close>

text \<open>
  C10. \<^verbatim>\<open>GetKeySet\<close> returns, in every cache state, either a key set and no error or no
  key set and an error (the cached one or \<^verbatim>\<open>ErrKeysNotFetched\<close>), never neither; a
  client fresh from \<^verbatim>\<open>New\<close> returns the error \<^verbatim>\<open>ErrKeysNotFetched\<close>, and no refresh ever
  returns or caches that error.
\<close>

theorem GetKeySet_total:
  "((\<exists>ks. GetKeySet c now = (Some ks, None))
    \<or> (\<exists>e. GetKeySet c now = (None, Some e)
          \<and> (cachedError c = Some e \<or> e = ErrKeysNotFetched)))
   \<and> GetKeySet c now \<noteq> (None, None)
   \<and> (New cfg hc = Inr c0 \<longrightarrow> GetKeySet c0 now = (None, Some ErrKeysNotFetched))
   \<and> snd (snd (Refresh lib c force now0 now1 now2)) \<noteq> Some ErrKeysNotFetched"
proof -
  obtain ks resp headers err hc' where g: "get lib c = ((ks, resp, headers, err), hc')"
    by (rule get_cases)
  have "snd (snd (Refresh lib c force now0 now1 now2)) \<noteq> Some ErrKeysNotFetched"
    using Refresh_run [OF _ g, of force now0 now1 now2]
      Refresh_noop [of force now0 c lib now1 now2] get_shape [OF g]
    by (cases "force \<or> time_After now0 (cacheExpiresAfter c)") auto
  then show ?thesis
    by (auto simp: GetKeySet_def New_def split: option.splits)
qed

theorem GetKeySet_total_witness:
  "New cfg0 \<lparr> sent = 0, network = net_down \<rparr> = Inr (fresh cfg0 net_down)
   \<and> GetKeySet (fresh cfg0 net_down) 1000 = (None, Some ErrKeysNotFetched)"
proof -
  have n: "New cfg0 \<lparr> sent = 0, network = net_down \<rparr> = Inr (fresh cfg0 net_down)"
    by (simp add: New_def Validate_def fresh_def cfg0_def NewConfig_def)
  have "GetKeySet (fresh cfg0 net_down) 1000 = (None, Some ErrKeysNotFetched)"
    by (rule GetKeySet_total
      [of "fresh cfg0 net_down" 1000 cfg0 "\<lparr> sent = 0, network = net_down \<rparr>"
          "fresh cfg0 net_down" fakelib False 1000 1000 1000,
        THEN conjunct2, THEN conjunct2, THEN conjunct1, rule_format, OF n])
  with n show ?thesis
    by simp
qed

text \<open>
  C1. The stale-serving policy of \<^verbatim>\<open>GetKeySet\<close>, in every cache state: with a cached
  error, and the grace window \<^verbatim>\<open>keysStaleSince + KeepStaleKeys\<close> before now or no key
  set loaded, it returns the cached error; otherwise a loaded key set is returned, with
  a cached error too as long as the grace window has not passed.
\<close>

theorem GetKeySet_stale_policy:
  "(cachedError c \<noteq> None
      \<and> (time_Before (time_Add (keysStaleSince c) (KeepStaleKeys (config c))) now
         \<or> cachedJWKSet c = None)
     \<longrightarrow> GetKeySet c now = (None, cachedError c))
   \<and> (\<not> (cachedError c \<noteq> None
          \<and> (time_Before (time_Add (keysStaleSince c) (KeepStaleKeys (config c))) now
             \<or> cachedJWKSet c = None))
       \<and> cachedJWKSet c = Some ks
     \<longrightarrow> GetKeySet c now = (Some ks, None))
   \<and> (cachedError c \<noteq> None \<and> cachedJWKSet c = Some ks
       \<and> \<not> time_Before (time_Add (keysStaleSince c) (KeepStaleKeys (config c))) now
     \<longrightarrow> GetKeySet c now = (Some ks, None))"
  by (simp add: GetKeySet_def)

theorem GetKeySet_stale_policy_witness:
  "cachedError after_outage \<noteq> None \<and> cachedJWKSet after_outage = Some []
   \<and> time_Add (keysStaleSince after_outage) (KeepStaleKeys (config after_outage))
        = 500000000001
   \<and> GetKeySet after_outage 500000000001 = (Some [], None)
   \<and> GetKeySet after_outage 500000000002 = (None, cachedError after_outage)"
  using GetKeySet_stale_policy [of after_outage 500000000001 "[]"]
    GetKeySet_stale_policy [of after_outage 500000000002 "[]"]
  by (simp add: after_outage_eq time_defs cfg0_def NewConfig_def)

subsection \<open>The expiry after a successful fetch\<close>

text \<open>
  C2, as the specification states it, fails: with \<^verbatim>\<open>CacheMax = 0\<close> the test
  \<^verbatim>\<open>now.Add(CacheMax).Before(expiresAfter)\<close> holds for every candidate later than now,
  so the candidate is cut to now. Here the headers give now + 120 s, the floor of 60 s
  lies below it, and the installed expiry is now + 60 s; with \<^verbatim>\<open>CacheMin = 0\<close> as well
  it is now.
\<close>

theorem cacheMax_zero_counterexample:
  "CacheMax (cfg0\<lparr>CacheMax := 0\<rparr>) = 0
   \<and> expiresAfter fakelib 1000 hdr120 = Inr 120000001000
   \<and> (1000 :: Time) < 120000001000
   \<and> time_Add 1000 (CacheMin (cfg0\<lparr>CacheMax := 0\<rparr>)) = 60000001000
   \<and> cacheExpiresAfter
        (updateExpiresAfter fakelib (fresh (cfg0\<lparr>CacheMax := 0\<rparr>) (net_up hdr120)) 1000
           (Some hdr120) None) = 60000001000
   \<and> cacheExpiresAfter
        (fst (Refresh fakelib (fresh (cfg0\<lparr>CacheMax := 0, CacheMin := 0\<rparr>) (net_up hdr120))
           False 1000 1000 1000)) = 1000"
  by (simp add: client_defs hdr120_expiry fakelib_sel fake_Unmarshal_def net_up_def
      fresh_def time_defs cfg0_def NewConfig_def Let_def)

text \<open>
  C2, amended. With \<^verbatim>\<open>CacheMax = 0\<close> the ceiling is now itself: for every header-derived
  candidate expiry later than now, the installed expiry is \<^verbatim>\<open>now + CacheMin\<close> when
  \<^verbatim>\<open>CacheMin\<close> is positive, and now otherwise.
\<close>

theorem cacheMax_zero_ceiling_is_now:
  assumes "CacheMax (config c) = 0" and "expiresAfter lib now h = Inr E" and "now < E"
  shows "cacheExpiresAfter (updateExpiresAfter lib c now (Some h) None) =
     (if 0 <s CacheMin (config c) then time_Add now (CacheMin (config c)) else now)"
  using assms by (simp add: expiry_after_success time_Add_def word_sless_alt)

theorem cacheMax_zero_ceiling_is_now_witness:
  "CacheMax (config (fresh (cfg0\<lparr>CacheMax := 0\<rparr>) (net_up hdr120))) = 0
   \<and> expiresAfter fakelib 1000 hdr120 = Inr 120000001000
   \<and> (1000 :: Time) < 120000001000
   \<and> cacheExpiresAfter
        (updateExpiresAfter fakelib (fresh (cfg0\<lparr>CacheMax := 0\<rparr>) (net_up hdr120)) 1000
           (Some hdr120) None) = 60000001000"
  using cacheMax_zero_ceiling_is_now
    [of "fresh (cfg0\<lparr>CacheMax := 0\<rparr>) (net_up hdr120)" fakelib 1000 hdr120 120000001000]
  by (simp add: hdr120_expiry fresh_def cfg0_def NewConfig_def time_defs)

text \<open>
  C3. For a successful fetch whose headers give the candidate expiry \<open>E\<close>, the installed
  expiry is \<open>E\<close> cut to the ceiling \<^verbatim>\<open>now + CacheMax\<close> first and raised to the floor
  \<^verbatim>\<open>now + CacheMin\<close> second, that is \<open>max (now + CacheMin) (min E (now + CacheMax))\<close>;
  when \<^verbatim>\<open>CacheMin > CacheMax\<close> it is \<^verbatim>\<open>now + CacheMin\<close>.
\<close>

theorem clamp_floor_wins:
  assumes "expiresAfter lib now h = Inr E"
  shows "cacheExpiresAfter (updateExpiresAfter lib c now (Some h) None) =
       (let ceiled = (if time_Add now (CacheMax (config c)) < E
                      then time_Add now (CacheMax (config c)) else E)
        in if ceiled < time_Add now (CacheMin (config c))
           then time_Add now (CacheMin (config c)) else ceiled)
     \<and> cacheExpiresAfter (updateExpiresAfter lib c now (Some h) None) =
       max (time_Add now (CacheMin (config c))) (min E (time_Add now (CacheMax (config c))))
     \<and> (CacheMax (config c) <s CacheMin (config c) \<longrightarrow>
          cacheExpiresAfter (updateExpiresAfter lib c now (Some h) None) =
            time_Add now (CacheMin (config c)))"
  using assms
  by (auto simp: expiry_after_success Let_def time_Add_def word_sless_alt)

theorem clamp_floor_wins_witness:
  "expiresAfter fakelib 1000 hdr120 = Inr 120000001000
   \<and> CacheMax (cfg0\<lparr>CacheMin := Hour, CacheMax := Minute\<rparr>)
        <s CacheMin (cfg0\<lparr>CacheMin := Hour, CacheMax := Minute\<rparr>)
   \<and> cacheExpiresAfter
        (updateExpiresAfter fakelib
           (fresh (cfg0\<lparr>CacheMin := Hour, CacheMax := Minute\<rparr>) (net_up hdr120)) 1000
           (Some hdr120) None) = 3600000001000"
  using clamp_floor_wins
    [of fakelib 1000 hdr120 120000001000
        "fresh (cfg0\<lparr>CacheMin := Hour, CacheMax := Minute\<rparr>) (net_up hdr120)"]
  by (simp add: hdr120_expiry fresh_def cfg0_def NewConfig_def time_defs)

subsection \<open>The expiry from the headers\<close>

text \<open>
  C4, as the specification states it, fails for two kinds of response that carry a
  max-age: \<^verbatim>\<open>header.Get\<close> returns the first \<^verbatim>\<open>Cache-Control\<close> line only, so a max-age on a
  second line is not read, and with no \<^verbatim>\<open>Expires\<close> the calculation fails; and a max-age
  of 9223372037 seconds is more than \<^verbatim>\<open>time.ParseDuration\<close> accepts, so the calculation
  fails with its error.
\<close>

theorem max_age_unread_counterexample:
  "hdr_second_line ''Cache-Control'' = Some [''public'', ''max-age=120'']
   \<and> header_Get hdr_second_line ''Age'' = []
   \<and> expiresAfter fakelib 1000 hdr_second_line = Inl CacheHeadersNotPresent
   \<and> hdr_too_long ''Cache-Control'' = Some [''max-age=9223372037'']
   \<and> header_Get hdr_too_long ''Age'' = []
   \<and> expiresAfter fakelib 1000 hdr_too_long =
       Inl (Wrapped ''parsing max-age'' (LibError (invalidDuration ''9223372037s'')))"
  by (simp add: hdr_second_line_def hdr_too_long_def header_defs fakelib_sel digitVal_def
      fake_ParseDuration_def)

text \<open>
  C4, amended. Let the first \<^verbatim>\<open>Cache-Control\<close> line, split at commas, have \<^verbatim>\<open>max-age=n\<close>,
  \<open>n\<close> not empty, as the first part that starts with \<^verbatim>\<open>max-age=\<close> once its white space is
  trimmed, and let \<^verbatim>\<open>time.ParseDuration\<close> read \<open>n\<close> followed by \<^verbatim>\<open>s\<close> as the duration \<open>N\<close>.
  When the first \<^verbatim>\<open>Age\<close> line is not empty and is read in the same way as \<open>M\<close>, with
  \<open>0 \<le> M \<le> N\<close>, the expiry computed from the headers is \<open>now + (N - M)\<close>; when there is
  no \<^verbatim>\<open>Age\<close> header it is \<open>now + N\<close>.
\<close>

theorem max_age_minus_age:
  assumes "strings_Split (header_Get h ''Cache-Control'') CHR '','' = pre @ p # post"
    and "\<forall>q \<in> set pre. \<not> strings_HasPrefix (strings_TrimSpace q) ''max-age=''"
    and "strings_TrimSpace p = ''max-age='' @ n" and "n \<noteq> []"
    and "time_ParseDuration lib (n @ ''s'') = Inr N"
  shows "(header_Get h ''Age'' = a \<and> a \<noteq> [] \<and> time_ParseDuration lib (a @ ''s'') = Inr M
          \<and> 0 \<le>s M \<and> M \<le>s N \<longrightarrow>
            expiresAfter lib now h = Inr (now + (sint N - sint M)))
       \<and> (header_Get h ''Age'' = [] \<longrightarrow> expiresAfter lib now h = Inr (now + sint N))"
proof (intro conjI impI)
  have maxAge: "parseMaxAge lib h = (N, True, None)"
    using assms by (rule parseMaxAge_reads)
  {
    assume a: "header_Get h ''Age'' = a \<and> a \<noteq> [] \<and> time_ParseDuration lib (a @ ''s'') = Inr M
          \<and> 0 \<le>s M \<and> M \<le>s N"
    then have age: "parseAge lib h = (M, True, None)"
      by (simp add: parseAge_reads)
    from a have diff: "sint (N - M) = sint N - sint M"
      by (simp add: sint_sub_nowrap)
    moreover from a have "0 \<le> sint N - sint M"
      by (simp add: word_sle_eq)
    ultimately have "\<not> N - M <s 0"
      by (simp add: word_sless_alt)
    with maxAge age diff
    show "expiresAfter lib now h = Inr (now + (sint N - sint M))"
      by (simp add: expiresAfter_def Let_def time_Add_def)
  }
  {
    assume "header_Get h ''Age'' = []"
    then have "parseAge lib h = (0, False, None)"
      by (simp add: parseAge_def headerNameAge_def)
    with maxAge show "expiresAfter lib now h = Inr (now + sint N)"
      by (simp add: expiresAfter_def time_Add_def)
  }
qed

theorem max_age_minus_age_witness:
  "strings_Split (header_Get hdr120age20 ''Cache-Control'') CHR '','' =
       [''public''] @ '' max-age=120'' # []
   \<and> \<not> strings_HasPrefix (strings_TrimSpace ''public'') ''max-age=''
   \<and> strings_TrimSpace '' max-age=120'' = ''max-age='' @ ''120''
   \<and> time_ParseDuration fakelib (''120'' @ ''s'') = Inr 120000000000
   \<and> header_Get hdr120age20 ''Age'' = ''20''
   \<and> time_ParseDuration fakelib (''20'' @ ''s'') = Inr 20000000000
   \<and> (0 :: Duration) \<le>s 20000000000 \<and> (20000000000 :: Duration) \<le>s 120000000000
   \<and> expiresAfter fakelib 1000 hdr120age20 = Inr (1000 + (120000000000 - 20000000000))
   \<and> strings_Split (header_Get hdr120 ''Cache-Control'') CHR '','' =
       [''public''] @ '' max-age=120'' # []
   \<and> header_Get hdr120 ''Age'' = []
   \<and> expiresAfter fakelib 1000 hdr120 = Inr (1000 + 120000000000)"
proof -
  have split20: "strings_Split (header_Get hdr120age20 ''Cache-Control'') CHR '','' =
       [''public''] @ '' max-age=120'' # []"
    and split: "strings_Split (header_Get hdr120 ''Cache-Control'') CHR '','' =
       [''public''] @ '' max-age=120'' # []"
    by (simp_all add: hdr120age20_def hdr120_def header_Get_def)
  have pre: "\<forall>q \<in> set [''public'']. \<not> strings_HasPrefix (strings_TrimSpace q) ''max-age=''"
    by (simp add: strings_TrimSpace_def asciiSpace_def spaceRune2_def spaceRune3_def
        strings_HasPrefix_def)
  have p: "strings_TrimSpace '' max-age=120'' = ''max-age='' @ ''120''"
    by (simp add: strings_TrimSpace_def asciiSpace_def spaceRune2_def spaceRune3_def)
  have n: "''120'' \<noteq> []"
    by simp
  have N: "time_ParseDuration fakelib (''120'' @ ''s'') = Inr 120000000000"
    by (simp add: fakelib_sel fake_ParseDuration_def digitVal_def)
  have age: "header_Get hdr120age20 ''Age'' = ''20'' \<and> ''20'' \<noteq> []
      \<and> time_ParseDuration fakelib (''20'' @ ''s'') = Inr 20000000000
      \<and> (0 :: Duration) \<le>s 20000000000 \<and> (20000000000 :: Duration) \<le>s 120000000000"
    by (simp add: hdr120age20_def header_Get_def fakelib_sel fake_ParseDuration_def
        digitVal_def word_sle_eq)
  have none: "header_Get hdr120 ''Age'' = []"
    by (simp add: hdr120_def header_Get_def)
  have with_age: "expiresAfter fakelib 1000 hdr120age20 =
      Inr (1000 + (sint (120000000000 :: Duration) - sint (20000000000 :: Duration)))"
    by (rule max_age_minus_age [OF split20 pre p n N, THEN conjunct1, rule_format, OF age])
  have without: "expiresAfter fakelib 1000 hdr120 =
      Inr (1000 + sint (120000000000 :: Duration))"
    by (rule max_age_minus_age [OF split pre p n N, THEN conjunct2, rule_format, OF none])
  from split20 split pre p N age none with_age without show ?thesis
    by simp
qed

text \<open>
  C5. When the fetch succeeds and the calculation from the headers fails (for any of the
  reasons of \<open>expiresAfter_failures\<close>), \<^verbatim>\<open>Refresh\<close> returns no error, the cached error
  is \<^verbatim>\<open>nil\<close>, the key set is installed and the expiry is \<^verbatim>\<open>now + CacheMin\<close>.
\<close>

theorem header_failure_falls_back_to_floor:
  assumes "force \<or> time_After now0 (cacheExpiresAfter c)"
    and "fst (get lib c) = (ks, resp, Some h, None)"
    and "expiresAfter lib now2 h = Inl e"
  shows "snd (snd (Refresh lib c force now0 now1 now2)) = None
     \<and> cachedError (fst (Refresh lib c force now0 now1 now2)) = None
     \<and> cachedJWKSet (fst (Refresh lib c force now0 now1 now2)) = ks
     \<and> cacheExpiresAfter (fst (Refresh lib c force now0 now1 now2)) =
         time_Add now2 (CacheMin (config c))"
proof -
  obtain hc where "get lib c = ((ks, resp, Some h, None), hc)"
    using assms(2) by (cases "get lib c") simp
  from Refresh_run [OF assms(1) this] assms(3) show ?thesis
    by (simp add: expiry_after_header_failure)
qed

theorem header_failure_falls_back_to_floor_witness:
  "time_After 1000 (cacheExpiresAfter (fresh cfg0 (net_up hdr120age200)))
   \<and> fst (get fakelib (fresh cfg0 (net_up hdr120age200))) =
       (Some [], Some emptyKeySetJSON, Some hdr120age200, None)
   \<and> expiresAfter fakelib 1002 hdr120age200 =
       Inl (NegativeAge 120000000000 200000000000 (- 80000000000))
   \<and> snd (snd (Refresh fakelib (fresh cfg0 (net_up hdr120age200)) False 1000 1001 1002)) = None
   \<and> cachedError (fst (Refresh fakelib (fresh cfg0 (net_up hdr120age200)) False 1000 1001 1002))
       = None
   \<and> cacheExpiresAfter
       (fst (Refresh fakelib (fresh cfg0 (net_up hdr120age200)) False 1000 1001 1002))
       = 60000001002"
  using header_failure_falls_back_to_floor
    [of False 1000 "fresh cfg0 (net_up hdr120age200)" fakelib "Some []" "Some emptyKeySetJSON"
        hdr120age200 1002 "NegativeAge 120000000000 200000000000 (- 80000000000)" 1001]
  by (simp add: hdr120age200_expiry get_def http_Get_def fakelib_sel fake_Unmarshal_def
      net_up_def fresh_def cfg0_def NewConfig_def time_defs)

subsection \<open>Refresh\<close>

text \<open>
  C9. \<^verbatim>\<open>Refresh\<close> returns \<^verbatim>\<open>refreshed = true\<close> exactly when the attempt runs (forced, or
  the cache has expired), and then it has sent one request; it returns \<^verbatim>\<open>true\<close> with the
  error of the attempt, which is also the cached error, and the error is \<^verbatim>\<open>nil\<close> exactly
  when the attempt produced a key set.
\<close>

theorem Refresh_reports_attempt:
  assumes "get lib c = ((ks, resp, headers, err), hc)"
  shows "fst (snd (Refresh lib c force now0 now1 now2)) =
       (force \<or> time_After now0 (cacheExpiresAfter c))
     \<and> sent (httpClient (fst (Refresh lib c force now0 now1 now2))) =
       (if fst (snd (Refresh lib c force now0 now1 now2)) then Suc (sent (httpClient c))
        else sent (httpClient c))
     \<and> (force \<or> time_After now0 (cacheExpiresAfter c) \<longrightarrow>
          snd (Refresh lib c force now0 now1 now2) = (True, err)
          \<and> cachedError (fst (Refresh lib c force now0 now1 now2)) = err
          \<and> (err = None \<longleftrightarrow> ks \<noteq> None))"
proof (cases "force \<or> time_After now0 (cacheExpiresAfter c)")
  case True
  from Refresh_run [OF True assms, of now1 now2] get_shape [OF assms] True show ?thesis
    by simp
next
  case False
  then show ?thesis
    by (simp add: Refresh_noop)
qed

theorem Refresh_reports_attempt_witness:
  "get fakelib (fresh cfg0 net_down) =
       ((None, None, None,
         Some (Wrapped ''performing request'' (LibError ''connection refused''))),
        \<lparr> sent = 1, network = net_down \<rparr>)
   \<and> time_After 1000 (cacheExpiresAfter (fresh cfg0 net_down))
   \<and> snd (Refresh fakelib (fresh cfg0 net_down) False 1000 1001 1002) =
       (True, Some (Wrapped ''performing request'' (LibError ''connection refused'')))
   \<and> cachedError (fst (Refresh fakelib (fresh cfg0 net_down) False 1000 1001 1002)) =
       Some (Wrapped ''performing request'' (LibError ''connection refused''))"
proof -
  let ?e = "Wrapped ''performing request'' (LibError ''connection refused'')"
  have g: "get fakelib (fresh cfg0 net_down) =
      ((None, None, None, Some ?e), \<lparr> sent = 1, network = net_down \<rparr>)"
    by (simp add: get_def http_Get_def net_down_def fresh_def)
  have run: "False \<or> time_After 1000 (cacheExpiresAfter (fresh cfg0 net_down))"
    by (simp add: fresh_def time_defs)
  from Refresh_reports_attempt [OF g, of False 1000 1001 1002,
      THEN conjunct2, THEN conjunct2, rule_format, OF run] g run
  show ?thesis
    by simp
qed

text \<open>
  C7, as the specification states it, fails: with \<^verbatim>\<open>CacheErrors = 0\<close> a failed attempt
  leaves the expiry where it was, so a second \<^verbatim>\<open>Refresh(false)\<close> at the same instant
  sends a second request and returns \<^verbatim>\<open>true\<close> with the error.
\<close>

theorem Refresh_twice_counterexample:
  "CacheErrors (config (fresh (cfg0\<lparr>CacheErrors := 0\<rparr>) net_down)) = 0
   \<and> Refresh fakelib (fresh (cfg0\<lparr>CacheErrors := 0\<rparr>) net_down) False 1000 1000 1000 =
       (down_once, True,
        Some (Wrapped ''performing request'' (LibError ''connection refused'')))
   \<and> snd (Refresh fakelib down_once False 1000 1000 1000) =
       (True, Some (Wrapped ''performing request'' (LibError ''connection refused'')))
   \<and> sent (httpClient (fresh (cfg0\<lparr>CacheErrors := 0\<rparr>) net_down)) = 0
   \<and> sent (httpClient (fst (Refresh fakelib down_once False 1000 1000 1000))) = 2"
proof -
  have "Refresh fakelib (fresh (cfg0\<lparr>CacheErrors := 0\<rparr>) net_down) False 1000 1000 1000 =
       (down_once, True,
        Some (Wrapped ''performing request'' (LibError ''connection refused'')))"
    unfolding down_once_eq
    by (simp add: client_defs fakelib_sel net_down_def fresh_def time_defs cfg0_def
        NewConfig_def Let_def)
  moreover have "snd (Refresh fakelib down_once False 1000 1000 1000) =
       (True, Some (Wrapped ''performing request'' (LibError ''connection refused'')))"
    and "sent (httpClient (fst (Refresh fakelib down_once False 1000 1000 1000))) = 2"
    unfolding down_once_eq
    by (simp_all add: client_defs fakelib_sel net_down_def time_defs Let_def)
  ultimately show ?thesis
    by (simp add: fresh_def)
qed

text \<open>
  C7, amended. While the cache has not expired, \<^verbatim>\<open>Refresh(false)\<close> sends no request,
  changes no field and returns \<^verbatim>\<open>(false, nil)\<close>. Two calls of \<^verbatim>\<open>Refresh(false)\<close> in a row
  send at most one request, the second returning \<^verbatim>\<open>(false, nil)\<close>, whenever the expiry
  left by the first has not passed at the second: so it is after a failed attempt with
  \<^verbatim>\<open>CacheErrors > 0\<close> up to \<^verbatim>\<open>CacheErrors\<close> later, and after a successful attempt up to
  \<^verbatim>\<open>CacheMin\<close> later.
\<close>

theorem Refresh_fresh_noop:
  "(\<not> time_After now (cacheExpiresAfter c) \<longrightarrow>
      Refresh lib c False now n1 n2 = (c, False, None))
   \<and> (\<not> time_After now' (cacheExpiresAfter (fst (Refresh lib c False now n1 n2))) \<longrightarrow>
        Refresh lib (fst (Refresh lib c False now n1 n2)) False now' n1' n2' =
          (fst (Refresh lib c False now n1 n2), False, None)
        \<and> sent (httpClient (fst (Refresh lib (fst (Refresh lib c False now n1 n2))
                                    False now' n1' n2')))
            \<le> Suc (sent (httpClient c)))
   \<and> (fst (snd (Refresh lib c False now n1 n2))
       \<and> snd (snd (Refresh lib c False now n1 n2)) \<noteq> None
       \<and> 0 <s CacheErrors (config c) \<and> now' \<le> time_Add n2 (CacheErrors (config c)) \<longrightarrow>
        \<not> time_After now' (cacheExpiresAfter (fst (Refresh lib c False now n1 n2))))
   \<and> (fst (snd (Refresh lib c False now n1 n2))
       \<and> snd (snd (Refresh lib c False now n1 n2)) = None
       \<and> now' \<le> time_Add n2 (CacheMin (config c)) \<longrightarrow>
        \<not> time_After now' (cacheExpiresAfter (fst (Refresh lib c False now n1 n2))))"
proof -
  obtain c1 r e where R: "Refresh lib c False now n1 n2 = (c1, r, e)"
    by (cases "Refresh lib c False now n1 n2")
  obtain ks resp headers err hc where g: "get lib c = ((ks, resp, headers, err), hc)"
    by (rule get_cases)
  have ran: "r \<Longrightarrow> c1 = c\<lparr>httpClient := hc, cachedHeaders := headers, cachedResponse := resp,
        cachedError := err,
        keysStaleSince := (if err = None then zeroTime
                           else if time_IsZero (keysStaleSince c) then n1
                           else keysStaleSince c),
        cachedJWKSet := (if err = None then ks else cachedJWKSet c),
        cacheExpiresAfter := cacheExpiresAfter (updateExpiresAfter lib c n2 headers err)\<rparr>
      \<and> e = err"
    using Refresh_result(1) [OF R] Refresh_run [OF _ g, of False now n1 n2] R by simp
  have A: "\<not> time_After now (cacheExpiresAfter c) \<longrightarrow>
      Refresh lib c False now n1 n2 = (c, False, None)"
    by (simp add: Refresh_noop)
  have B: "\<not> time_After now' (cacheExpiresAfter (fst (Refresh lib c False now n1 n2))) \<longrightarrow>
        Refresh lib (fst (Refresh lib c False now n1 n2)) False now' n1' n2' =
          (fst (Refresh lib c False now n1 n2), False, None)
        \<and> sent (httpClient (fst (Refresh lib (fst (Refresh lib c False now n1 n2))
                                    False now' n1' n2')))
            \<le> Suc (sent (httpClient c))"
    using Refresh_result(3) [OF R] by (simp add: R Refresh_noop)
  have C: "fst (snd (Refresh lib c False now n1 n2))
       \<and> snd (snd (Refresh lib c False now n1 n2)) \<noteq> None
       \<and> 0 <s CacheErrors (config c) \<and> now' \<le> time_Add n2 (CacheErrors (config c)) \<longrightarrow>
        \<not> time_After now' (cacheExpiresAfter (fst (Refresh lib c False now n1 n2)))"
    using ran by (auto simp: R expiry_after_failure time_After_def)
  have D: "fst (snd (Refresh lib c False now n1 n2))
       \<and> snd (snd (Refresh lib c False now n1 n2)) = None
       \<and> now' \<le> time_Add n2 (CacheMin (config c)) \<longrightarrow>
        \<not> time_After now' (cacheExpiresAfter (fst (Refresh lib c False now n1 n2)))"
  proof
    assume a: "fst (snd (Refresh lib c False now n1 n2))
       \<and> snd (snd (Refresh lib c False now n1 n2)) = None
       \<and> now' \<le> time_Add n2 (CacheMin (config c))"
    with ran R have err: "err = None" and r: r
      by simp_all
    with get_shape [OF g] obtain h where h: "headers = Some h"
      by auto
    from a ran [OF r] err h expiry_floor [of n2 c lib h]
    show "\<not> time_After now' (cacheExpiresAfter (fst (Refresh lib c False now n1 n2)))"
      by (simp add: R time_After_def)
  qed
  show ?thesis
    by (rule conjI [OF A conjI [OF B conjI [OF C D]]])
qed

theorem Refresh_fresh_noop_witness:
  "\<not> time_After 2000 (cacheExpiresAfter after_success)
   \<and> Refresh fakelib after_success False 2000 2001 2002 = (after_success, False, None)
   \<and> Refresh fakelib (fresh cfg0 (net_up_once hdr120)) False 1000 1000 1000 =
       (after_success, True, None)
   \<and> (1000 :: Time) \<le> time_Add 1000 (CacheMin cfg0)
   \<and> Refresh fakelib after_success False 1000 1000 1000 = (after_success, False, None)
   \<and> sent (httpClient after_success) = 1
   \<and> fst (snd (Refresh fakelib (fresh cfg0 net_down) False 1000 1000 1000))
   \<and> snd (snd (Refresh fakelib (fresh cfg0 net_down) False 1000 1000 1000)) \<noteq> None
   \<and> 0 <s CacheErrors cfg0
   \<and> (1000 :: Time) \<le> time_Add 1000 (CacheErrors cfg0)
   \<and> snd (Refresh fakelib (fst (Refresh fakelib (fresh cfg0 net_down) False 1000 1000 1000))
         False 1000 1000 1000) = (False, None)"
proof -
  have fresh_now: "\<not> time_After 2000 (cacheExpiresAfter after_success)"
    by (simp add: after_success_eq time_defs)
  have A: "Refresh fakelib after_success False 2000 2001 2002 = (after_success, False, None)"
    by (rule Refresh_fresh_noop [of 2000 after_success fakelib 2001 2002 2000 2001 2002,
          THEN conjunct1, rule_format, OF fresh_now])
  have up: "fst (snd (Refresh fakelib (fresh cfg0 (net_up_once hdr120)) False 1000 1000 1000))
       \<and> snd (snd (Refresh fakelib (fresh cfg0 (net_up_once hdr120)) False 1000 1000 1000))
           = None
       \<and> (1000 :: Time) \<le> time_Add 1000 (CacheMin (config (fresh cfg0 (net_up_once hdr120))))"
    by (simp add: first_up_eval) (simp add: fresh_def cfg0_def NewConfig_def time_defs)
  note up_thm = Refresh_fresh_noop
    [of 1000 "fresh cfg0 (net_up_once hdr120)" fakelib 1000 1000 1000 1000 1000]
  have D: "\<not> time_After 1000
      (cacheExpiresAfter (fst (Refresh fakelib (fresh cfg0 (net_up_once hdr120))
         False 1000 1000 1000)))"
    by (rule up_thm [THEN conjunct2, THEN conjunct2, THEN conjunct2, rule_format, OF up])
  have B: "Refresh fakelib after_success False 1000 1000 1000 = (after_success, False, None)"
    using up_thm [THEN conjunct2, THEN conjunct1, rule_format, OF D]
    by (simp add: first_up_eval)
  have down: "fst (snd (Refresh fakelib (fresh cfg0 net_down) False 1000 1000 1000))
       \<and> snd (snd (Refresh fakelib (fresh cfg0 net_down) False 1000 1000 1000)) \<noteq> None
       \<and> 0 <s CacheErrors (config (fresh cfg0 net_down))
       \<and> (1000 :: Time) \<le> time_Add 1000 (CacheErrors (config (fresh cfg0 net_down)))"
    by (simp add: first_down_eval) (simp add: fresh_def cfg0_def NewConfig_def time_defs)
  note down_thm = Refresh_fresh_noop
    [of 1000 "fresh cfg0 net_down" fakelib 1000 1000 1000 1000 1000]
  have C: "\<not> time_After 1000
      (cacheExpiresAfter (fst (Refresh fakelib (fresh cfg0 net_down) False 1000 1000 1000)))"
    by (rule down_thm [THEN conjunct2, THEN conjunct2, THEN conjunct1, rule_format, OF down])
  have B': "snd (Refresh fakelib (fst (Refresh fakelib (fresh cfg0 net_down) False 1000 1000 1000))
         False 1000 1000 1000) = (False, None)"
    using down_thm [THEN conjunct2, THEN conjunct1, rule_format, OF C] by simp
  have s: "sent (httpClient after_success) = 1"
    by (simp add: after_success_eq)
  from fresh_now A first_up_eval up B s down B' show ?thesis
    by (simp add: fresh_def)
qed

text \<open>
  C8, as the specification states it, fails for a forced refresh of a fresh cache: with
  \<^verbatim>\<open>CacheErrors = 0\<close> the failed attempt leaves the expiry of the earlier success in
  place, and the next \<^verbatim>\<open>Refresh(false)\<close> is not due: it returns \<^verbatim>\<open>(false, nil)\<close>.
\<close>

theorem forced_failure_counterexample:
  "CacheErrors (config served_once) = 0
   \<and> \<not> time_After 2000 (cacheExpiresAfter served_once)
   \<and> Refresh fakelib served_once True 2000 2001 2002 =
       (forced_failure, True,
        Some (Wrapped ''performing request'' (LibError ''connection refused'')))
   \<and> cacheExpiresAfter forced_failure = cacheExpiresAfter served_once
   \<and> \<not> time_After 3000 (cacheExpiresAfter forced_failure)
   \<and> Refresh fakelib forced_failure False 3000 3001 3002 = (forced_failure, False, None)"
proof -
  have "Refresh fakelib served_once True 2000 2001 2002 =
       (forced_failure, True,
        Some (Wrapped ''performing request'' (LibError ''connection refused'')))"
    unfolding forced_failure_eq unfolding served_once_eq
    by (simp add: client_defs fakelib_sel net_down_def net_up_once_def time_defs cfg0_def
        NewConfig_def Let_def)
  moreover have "Refresh fakelib forced_failure False 3000 3001 3002 =
      (forced_failure, False, None)"
    unfolding forced_failure_eq by (simp add: Refresh_def time_defs)
  ultimately show ?thesis
    by (simp add: forced_failure_eq served_once_eq time_defs)
qed

text \<open>
  C8, amended. After a refresh whose fetch fails the expiry does not depend on the
  headers or their parsers: it is \<^verbatim>\<open>now + CacheErrors\<close> when \<^verbatim>\<open>CacheErrors > 0\<close>, and it
  is left unchanged when \<^verbatim>\<open>CacheErrors = 0\<close>. Then, when the attempt was not forced, the
  next check at any later time is due again; and a check made before the unchanged
  expiry has passed, as after a forced attempt on a fresh cache, is a no-op.
\<close>

theorem failed_fetch_expiry:
  assumes "force \<or> time_After now0 (cacheExpiresAfter c)"
    and "get lib c = ((ks, resp, headers, Some e), hc)"
  shows "cacheExpiresAfter (fst (Refresh lib c force now0 now1 now2)) =
       (if 0 <s CacheErrors (config c) then time_Add now2 (CacheErrors (config c))
        else cacheExpiresAfter c)
     \<and> updateExpiresAfter lib' c now2 headers' (Some e) =
         updateExpiresAfter lib c now2 headers (Some e)
     \<and> (CacheErrors (config c) = 0 \<longrightarrow>
          cacheExpiresAfter (fst (Refresh lib c force now0 now1 now2)) = cacheExpiresAfter c)
     \<and> (CacheErrors (config c) = 0 \<and> \<not> force \<and> now0 \<le> now' \<longrightarrow>
          time_After now' (cacheExpiresAfter (fst (Refresh lib c force now0 now1 now2)))
          \<and> fst (snd (Refresh lib (fst (Refresh lib c force now0 now1 now2))
                         False now' n1' n2')))
     \<and> (CacheErrors (config c) = 0 \<and> \<not> time_After now' (cacheExpiresAfter c) \<longrightarrow>
          Refresh lib (fst (Refresh lib c force now0 now1 now2)) False now' n1' n2' =
            (fst (Refresh lib c force now0 now1 now2), False, None))"
proof -
  obtain c1 where R: "Refresh lib c force now0 now1 now2 = (c1, True, Some e)"
    and x: "cacheExpiresAfter c1 =
       (if 0 <s CacheErrors (config c) then time_Add now2 (CacheErrors (config c))
        else cacheExpiresAfter c)"
    using Refresh_run [OF assms, of now1 now2] by (simp add: expiry_after_failure)
  have A: "cacheExpiresAfter (fst (Refresh lib c force now0 now1 now2)) =
       (if 0 <s CacheErrors (config c) then time_Add now2 (CacheErrors (config c))
        else cacheExpiresAfter c)"
    using R x by simp
  have B: "updateExpiresAfter lib' c now2 headers' (Some e) =
         updateExpiresAfter lib c now2 headers (Some e)"
    by (simp add: updateExpiresAfter_def)
  have C: "CacheErrors (config c) = 0 \<longrightarrow>
          cacheExpiresAfter (fst (Refresh lib c force now0 now1 now2)) = cacheExpiresAfter c"
    using A by (simp add: word_sless_alt)
  have D: "CacheErrors (config c) = 0 \<and> \<not> force \<and> now0 \<le> now' \<longrightarrow>
          time_After now' (cacheExpiresAfter (fst (Refresh lib c force now0 now1 now2)))
          \<and> fst (snd (Refresh lib (fst (Refresh lib c force now0 now1 now2))
                         False now' n1' n2'))"
  proof
    assume a: "CacheErrors (config c) = 0 \<and> \<not> force \<and> now0 \<le> now'"
    with assms(1) have "cacheExpiresAfter c < now0"
      by (simp add: time_After_def)
    with a C R have due: "time_After now' (cacheExpiresAfter c1)"
      by (simp add: time_After_def)
    obtain c2 r2 e2 where R2: "Refresh lib c1 False now' n1' n2' = (c2, r2, e2)"
      by (cases "Refresh lib c1 False now' n1' n2'")
    from Refresh_result(1) [OF R2] due have r2
      by simp
    with due R R2
    show "time_After now' (cacheExpiresAfter (fst (Refresh lib c force now0 now1 now2)))
          \<and> fst (snd (Refresh lib (fst (Refresh lib c force now0 now1 now2))
                         False now' n1' n2'))"
      by simp
  qed
  have E: "CacheErrors (config c) = 0 \<and> \<not> time_After now' (cacheExpiresAfter c) \<longrightarrow>
          Refresh lib (fst (Refresh lib c force now0 now1 now2)) False now' n1' n2' =
            (fst (Refresh lib c force now0 now1 now2), False, None)"
    using C R by (simp add: Refresh_noop)
  show ?thesis
    by (rule conjI [OF A conjI [OF B conjI [OF C conjI [OF D E]]]])
qed

theorem failed_fetch_expiry_witness:
  "time_After 1000 (cacheExpiresAfter (fresh (cfg0\<lparr>CacheErrors := 0\<rparr>) net_down))
   \<and> get fakelib (fresh (cfg0\<lparr>CacheErrors := 0\<rparr>) net_down) =
       ((None, None, None,
         Some (Wrapped ''performing request'' (LibError ''connection refused''))),
        \<lparr> sent = 1, network = net_down \<rparr>)
   \<and> CacheErrors (config (fresh (cfg0\<lparr>CacheErrors := 0\<rparr>) net_down)) = 0
   \<and> cacheExpiresAfter down_once = cacheExpiresAfter (fresh (cfg0\<lparr>CacheErrors := 0\<rparr>) net_down)
   \<and> time_After 1000 (cacheExpiresAfter down_once)
   \<and> fst (snd (Refresh fakelib down_once False 1000 1000 1000))
   \<and> time_After 1000 (cacheExpiresAfter (fresh cfg0 net_down))
   \<and> cacheExpiresAfter (fst (Refresh fakelib (fresh cfg0 net_down) False 1000 1000 1000)) =
       time_Add 1000 (30 * Second)
   \<and> get fakelib served_once =
       ((None, None, None,
         Some (Wrapped ''performing request'' (LibError ''connection refused''))),
        \<lparr> sent = 2, network = net_up_once hdr120 \<rparr>)
   \<and> CacheErrors (config served_once) = 0
   \<and> \<not> time_After 3000 (cacheExpiresAfter served_once)
   \<and> Refresh fakelib forced_failure False 3000 3001 3002 = (forced_failure, False, None)"
proof -
  let ?e = "Wrapped ''performing request'' (LibError ''connection refused'')"
  let ?c = "fresh (cfg0\<lparr>CacheErrors := 0\<rparr>) net_down"
  have run: "False \<or> time_After 1000 (cacheExpiresAfter ?c)"
    by (simp add: fresh_def time_defs)
  have g: "get fakelib ?c = ((None, None, None, Some ?e), \<lparr> sent = 1, network = net_down \<rparr>)"
    by (simp add: get_def http_Get_def net_down_def fresh_def)
  have z: "CacheErrors (config ?c) = 0 \<and> \<not> False \<and> (1000 :: Time) \<le> 1000"
    by (simp add: fresh_def)
  note t = failed_fetch_expiry [OF run g, of 1000 1000 fakelib None 1000 1000 1000]
  have same: "cacheExpiresAfter down_once = cacheExpiresAfter ?c"
    using t [THEN conjunct2, THEN conjunct2, THEN conjunct1] z
    by (simp add: down_once_def)
  have due: "time_After 1000 (cacheExpiresAfter down_once)
      \<and> fst (snd (Refresh fakelib down_once False 1000 1000 1000))"
    using t [THEN conjunct2, THEN conjunct2, THEN conjunct2, THEN conjunct1, rule_format, OF z]
    by (simp add: down_once_def)
  have run': "False \<or> time_After 1000 (cacheExpiresAfter (fresh cfg0 net_down))"
    by (simp add: fresh_def time_defs)
  have g': "get fakelib (fresh cfg0 net_down) =
      ((None, None, None, Some ?e), \<lparr> sent = 1, network = net_down \<rparr>)"
    by (simp add: get_def http_Get_def net_down_def fresh_def)
  have pos: "cacheExpiresAfter (fst (Refresh fakelib (fresh cfg0 net_down) False 1000 1000 1000))
      = time_Add 1000 (30 * Second)"
    using failed_fetch_expiry [OF run' g', of 1000 1000 fakelib None 1000 1000 1000,
      THEN conjunct1]
    by (simp add: fresh_def cfg0_def NewConfig_def time_defs)
  have forced: "True \<or> time_After 2000 (cacheExpiresAfter served_once)"
    by simp
  have g'': "get fakelib served_once =
      ((None, None, None, Some ?e), \<lparr> sent = 2, network = net_up_once hdr120 \<rparr>)"
    by (simp add: served_once_eq get_def http_Get_def net_down_def net_up_once_def)
  have y: "CacheErrors (config served_once) = 0
      \<and> \<not> time_After 3000 (cacheExpiresAfter served_once)"
    by (simp add: served_once_eq time_defs)
  have noop: "Refresh fakelib forced_failure False 3000 3001 3002 =
      (forced_failure, False, None)"
    using failed_fetch_expiry [OF forced g'', of 2001 2002 fakelib None 3000 3001 3002,
      THEN conjunct2, THEN conjunct2, THEN conjunct2, THEN conjunct2, rule_format, OF y]
    by (simp add: forced_failure_def)
  from run g z same due run' pos g'' y noop show ?thesis
    by simp
qed

subsection \<open>The time of the first failure\<close>

lemma failureRun_snoc:
  "failureRun (log @ [(r, e, t)]) =
     (if \<not> r then failureRun log else if e = None then [] else (r, e, t) # failureRun log)"
  by (simp add: failureRun_def)

lemma failureRun_subset: "set (failureRun log) \<subseteq> set log"
  unfolding failureRun_def using set_takeWhileD by fastforce

lemma firstFailure_snoc:
  assumes "\<forall>x \<in> set log. snd (snd x) \<noteq> zeroTime"
  shows "firstFailure (log @ [(r, e, t)]) =
     (if \<not> r then firstFailure log
      else if e = None then zeroTime
      else if firstFailure log = zeroTime then t
      else firstFailure log)"
proof (cases "failureRun log")
  case Nil
  then show ?thesis
    by (simp add: firstFailure_def failureRun_snoc)
next
  case (Cons x xs)
  then have "last (x # xs) \<in> set log"
    using failureRun_subset [of log] last_in_set [of "x # xs"] by auto
  with assms have "snd (snd (last (x # xs))) \<noteq> zeroTime"
    by blast
  with Cons show ?thesis
    by (simp add: firstFailure_def failureRun_snoc)
qed

lemma RefreshCalls_invariant:
  assumes "keysStaleSince c = zeroTime"
    and "\<forall>a \<in> set calls. fst (snd (snd a)) \<noteq> zeroTime"
  shows "keysStaleSince (fst (RefreshCalls lib c calls)) =
           firstFailure (snd (RefreshCalls lib c calls))
       \<and> (\<forall>x \<in> set (snd (RefreshCalls lib c calls)). snd (snd x) \<noteq> zeroTime)"
  using assms(2)
proof (induction calls rule: rev_induct)
  case Nil
  then show ?case
    using assms(1) by (simp add: RefreshCalls_def firstFailure_def failureRun_def)
next
  case (snoc a calls)
  obtain force now0 now1 now2 where a: "a = (force, now0, now1, now2)"
    by (cases a)
  obtain c1 log where s: "RefreshCalls lib c calls = (c1, log)"
    by (cases "RefreshCalls lib c calls")
  obtain c' r e where R: "Refresh lib c1 force now0 now1 now2 = (c', r, e)"
    by (cases "Refresh lib c1 force now0 now1 now2")
  from snoc a have t: "now1 \<noteq> zeroTime"
    by simp
  from snoc s have ih: "keysStaleSince c1 = firstFailure log"
    and nz: "\<forall>x \<in> set log. snd (snd x) \<noteq> zeroTime"
    by simp_all
  have step: "RefreshCalls lib c (calls @ [a]) = (c', log @ [(r, e, now1)])"
    using a s R by (simp add: RefreshCalls_snoc RefreshStep_def)
  have "keysStaleSince c' = firstFailure (log @ [(r, e, now1)])"
    using Refresh_result(2) [OF R] ih
    by (simp add: firstFailure_snoc [OF nz] time_IsZero_def zeroTime_def)
  with step nz t show ?case
    by simp
qed

text \<open>
  C6. A refresh that runs and fails stamps \<^verbatim>\<open>keysStaleSince\<close> with the clock reading
  when it was zero and leaves it otherwise; one that succeeds resets it to zero. So,
  starting from a zero stamp and with clock readings that are not the zero time, after
  every sequence of calls \<^verbatim>\<open>keysStaleSince\<close> is the reading of the first failure since
  the last success, and zero when the last attempt succeeded.
\<close>

theorem staleSince_first_failure:
  "(force \<or> time_After now0 (cacheExpiresAfter c) \<longrightarrow>
      keysStaleSince (fst (Refresh lib c force now0 now1 now2)) =
        (if snd (snd (Refresh lib c force now0 now1 now2)) = None then zeroTime
         else if time_IsZero (keysStaleSince c) then now1
         else keysStaleSince c))
   \<and> (keysStaleSince c = zeroTime \<and> (\<forall>a \<in> set calls. fst (snd (snd a)) \<noteq> zeroTime) \<longrightarrow>
        keysStaleSince (fst (RefreshCalls lib c calls)) =
          firstFailure (snd (RefreshCalls lib c calls)))"
proof (intro conjI impI)
  assume run: "force \<or> time_After now0 (cacheExpiresAfter c)"
  obtain c' r e where R: "Refresh lib c force now0 now1 now2 = (c', r, e)"
    by (cases "Refresh lib c force now0 now1 now2")
  from Refresh_result(1,2) [OF R] run R
  show "keysStaleSince (fst (Refresh lib c force now0 now1 now2)) =
        (if snd (snd (Refresh lib c force now0 now1 now2)) = None then zeroTime
         else if time_IsZero (keysStaleSince c) then now1
         else keysStaleSince c)"
    by simp
next
  assume "keysStaleSince c = zeroTime \<and> (\<forall>a \<in> set calls. fst (snd (snd a)) \<noteq> zeroTime)"
  then show "keysStaleSince (fst (RefreshCalls lib c calls)) =
          firstFailure (snd (RefreshCalls lib c calls))"
    using RefreshCalls_invariant by blast
qed

theorem staleSince_first_failure_witness:
  "time_After 200000000000 (cacheExpiresAfter after_success)
   \<and> keysStaleSince after_success = zeroTime
   \<and> keysStaleSince
        (fst (Refresh fakelib after_success False 200000000000 200000000001 200000000002))
       = 200000000001
   \<and> keysStaleSince (fresh cfg0 (net_up_once hdr120)) = zeroTime
   \<and> list_all (\<lambda>a. fst (snd (snd a)) \<noteq> zeroTime) three_calls
   \<and> keysStaleSince (fst (RefreshCalls fakelib (fresh cfg0 (net_up_once hdr120)) three_calls))
       = firstFailure
           (snd (RefreshCalls fakelib (fresh cfg0 (net_up_once hdr120)) three_calls))
   \<and> firstFailure (snd (RefreshCalls fakelib (fresh cfg0 (net_up_once hdr120)) three_calls))
       = 200000000001"
proof -
  have run: "False \<or> time_After 200000000000 (cacheExpiresAfter after_success)"
    and z: "keysStaleSince after_success = zeroTime"
    by (simp_all add: after_success_eq time_defs)
  have failed:
    "snd (snd (Refresh fakelib after_success False 200000000000 200000000001 200000000002))
       \<noteq> None"
    unfolding after_success_eq
    by (simp add: client_defs fakelib_sel net_down_def net_up_once_def time_defs cfg0_def
        NewConfig_def Let_def)
  have pre: "keysStaleSince (fresh cfg0 (net_up_once hdr120)) = zeroTime
      \<and> (\<forall>a \<in> set three_calls. fst (snd (snd a)) \<noteq> zeroTime)"
    by (simp add: fresh_def three_calls_def zeroTime_def)
  have one: "keysStaleSince
        (fst (Refresh fakelib after_success False 200000000000 200000000001 200000000002))
       = 200000000001"
    using staleSince_first_failure
      [of False 200000000000 after_success fakelib 200000000001 200000000002 three_calls,
        THEN conjunct1, rule_format, OF run] failed z
    by (simp add: time_IsZero_def zeroTime_def)
  have many:
    "keysStaleSince (fst (RefreshCalls fakelib (fresh cfg0 (net_up_once hdr120)) three_calls))
       = firstFailure
           (snd (RefreshCalls fakelib (fresh cfg0 (net_up_once hdr120)) three_calls))"
    by (rule staleSince_first_failure
      [of False 1000 "fresh cfg0 (net_up_once hdr120)" fakelib 1000 1000 three_calls,
        THEN conjunct2, rule_format, OF pre])
  from run z one pre many three_calls_firstFailure show ?thesis
    by (simp add: list_all_iff)
qed

end
